theory Spec2Isabelle
  imports Complex_Main
begin

section \<open>Numeric kernels of train.py\<close>

text \<open>
  Tensors of floating-point numbers are modelled over the reals: a vector is a
  \<open>real list\<close>, a matrix a list of rows. Rounding is outside the embedding, except
  for the classification logits that \<^verbatim>\<open>iter_apply\<close> multiplies by the minibatch size:
  these are single-precision numbers, and their products are rounded.
\<close>

text \<open>What the modelled Python raises.\<close>

datatype exn =
  AssertionError | ZeroDivisionError | KeyError | ValueError | IndexError | FileNotFoundError
  | InvalidArgumentError

subsection \<open>Activation functions\<close>

text \<open>\<^verbatim>\<open>tf.pow(x, 3)\<close> with a literal integer exponent.\<close>

definition tf_pow :: "real \<Rightarrow> nat \<Rightarrow> real" where
  "tf_pow x k = x ^ k"

text \<open>
  \<^verbatim>\<open>def gelu(x): return 0.5*x*(1+tf.tanh(math.sqrt(2/math.pi)*(x+0.044715*tf.pow(x, 3))))\<close>
\<close>

definition gelu :: "real \<Rightarrow> real" where
  "gelu x = 0.5 * x * (1 + tanh (sqrt (2 / pi) * (x + 0.044715 * tf_pow x 3)))"

definition sigmoid :: "real \<Rightarrow> real" where
  "sigmoid x = 1 / (1 + exp (- x))"

definition swish :: "real \<Rightarrow> real" where
  "swish x = x * sigmoid x"

definition relu :: "real \<Rightarrow> real" where
  "relu x = max x 0"

text \<open>The dictionary \<^verbatim>\<open>act_fns\<close>; a missing key is \<open>None\<close>.\<close>

definition act_fns :: "string \<Rightarrow> (real \<Rightarrow> real) option" where
  "act_fns name =
     (if name = ''relu'' then Some relu
      else if name = ''swish'' then Some swish
      else if name = ''gelu'' then Some gelu
      else None)"

subsection \<open>Reductions\<close>

text \<open>\<^verbatim>\<open>tf.reduce_mean\<close> of a vector: the sum of the entries over their number.\<close>

definition reduce_mean :: "real list \<Rightarrow> real" where
  "reduce_mean xs = sum_list xs / real (length xs)"

subsection \<open>Tensors of rank 4 and the attention mask\<close>

text \<open>
  The attention weights are a tensor of rank 4, \<^verbatim>\<open>[batch, head, query, key]\<close>: its four
  dimensions and its entries as nested lists.
\<close>

record tensor4 =
  d0 :: nat
  d1 :: nat
  d2 :: nat
  d3 :: nat
  entries :: "real list list list list"

definition at4 :: "tensor4 \<Rightarrow> nat \<Rightarrow> nat \<Rightarrow> nat \<Rightarrow> nat \<Rightarrow> real" where
  "at4 t a h i j = entries t ! a ! h ! i ! j"

text \<open>The tensor of the given dimensions whose entry at \<open>(a, h, i, j)\<close> is \<open>f a h i j\<close>.\<close>

definition tabulate4 ::
  "nat \<Rightarrow> nat \<Rightarrow> nat \<Rightarrow> nat \<Rightarrow> (nat \<Rightarrow> nat \<Rightarrow> nat \<Rightarrow> nat \<Rightarrow> real) \<Rightarrow> tensor4"
where
  "tabulate4 n0 n1 n2 n3 f =
     \<lparr>d0 = n0, d1 = n1, d2 = n2, d3 = n3,
      entries = map (\<lambda>a. map (\<lambda>h. map (\<lambda>i. map (\<lambda>j. f a h i j) [0..<n3]) [0..<n2]) [0..<n1])
                 [0..<n0]\<rparr>"

text \<open>
  Broadcasting of an elementwise operation: two dimensions are compatible when they are
  equal or one of them is 1, and a dimension of 1 is read at index 0. TensorFlow raises
  ValueError for incompatible static shapes.
\<close>

definition bdim :: "nat \<Rightarrow> nat \<Rightarrow> nat option" where
  "bdim m n = (if m = n then Some m else if m = 1 then Some n else if n = 1 then Some m else None)"

definition bidx :: "nat \<Rightarrow> nat \<Rightarrow> nat" where
  "bidx n i = (if n = 1 then 0 else i)"

definition tf_binop :: "(real \<Rightarrow> real \<Rightarrow> real) \<Rightarrow> tensor4 \<Rightarrow> tensor4 \<Rightarrow> exn + tensor4" where
  "tf_binop f x y =
     (case (bdim (d0 x) (d0 y), bdim (d1 x) (d1 y), bdim (d2 x) (d2 y), bdim (d3 x) (d3 y)) of
        (Some e0, Some e1, Some e2, Some e3) \<Rightarrow>
          Inr (tabulate4 e0 e1 e2 e3
                 (\<lambda>a h i j. f (at4 x (bidx (d0 x) a) (bidx (d1 x) h) (bidx (d2 x) i) (bidx (d3 x) j))
                              (at4 y (bidx (d0 y) a) (bidx (d1 y) h) (bidx (d2 y) i) (bidx (d3 y) j))))
      | _ \<Rightarrow> Inl ValueError)"

text \<open>An operation with a scalar, entry by entry.\<close>

definition tf_map :: "(real \<Rightarrow> real) \<Rightarrow> tensor4 \<Rightarrow> tensor4" where
  "tf_map g x = tabulate4 (d0 x) (d1 x) (d2 x) (d3 x) (\<lambda>a h i j. g (at4 x a h i j))"

text \<open>
  \<^verbatim>\<open>tf.reshape(tf.matrix_band_part(tf.ones([n, n]), -1, 0), [1, 1, n, n])\<close>: the lower
  triangle of ones, diagonal included.
\<close>

definition band_lower :: "nat \<Rightarrow> tensor4" where
  "band_lower n = tabulate4 1 1 n n (\<lambda>a h i j. if j \<le> i then 1 else 0)"

text \<open>
  \<^verbatim>\<open>
  def mask_attn_weights(w):
      n = shape_list(w)[-1]
      b = tf.matrix_band_part(tf.ones([n, n]), -1, 0)
      b = tf.reshape(b, [1, 1, n, n])
      w = w*b + -1e9*(1-b)
      return w
  \<close>
\<close>

definition mask_attn_weights :: "tensor4 \<Rightarrow> exn + tensor4" where
  "mask_attn_weights w =
     (let n = d3 w;
          b = band_lower n
      in case tf_binop (*) w b of
           Inl e \<Rightarrow> Inl e
         | Inr wb \<Rightarrow> tf_binop (+) wb (tf_map (\<lambda>v. - 1000000000 * v) (tf_map (\<lambda>v. 1 - v) b)))"

text \<open>\<^verbatim>\<open>tf.nn.softmax\<close>, over the last axis.\<close>

definition softmax4 :: "tensor4 \<Rightarrow> tensor4" where
  "softmax4 w =
     tabulate4 (d0 w) (d1 w) (d2 w) (d3 w)
       (\<lambda>a h i j. exp (at4 w a h i j) / sum_list (map (\<lambda>k. exp (at4 w a h i k)) [0..<d3 w]))"

text \<open>
  The attention probabilities of \<^verbatim>\<open>_attn\<close>:
  \<^verbatim>\<open>w = mask_attn_weights(w); w = tf.nn.softmax(w)\<close>.
\<close>

definition attn_probs :: "tensor4 \<Rightarrow> exn + tensor4" where
  "attn_probs w = (case mask_attn_weights w of Inl e \<Rightarrow> Inl e | Inr m \<Rightarrow> Inr (softmax4 m))"

section \<open>Graph construction of a transformer block, at the level of shapes\<close>

text \<open>
  Building the graph computes, operation by operation, the static shape of every tensor
  and raises where an operation does not accept the shapes it is given. The functions of
  train.py are modelled on shapes: a shape is the list of its dimensions. Dimensions that
  are unknown while the graph is built are not modelled.
\<close>

type_synonym shape = "nat list"

definition bind_exn :: "exn + 'a \<Rightarrow> ('a \<Rightarrow> exn + 'b) \<Rightarrow> exn + 'b" where
  "bind_exn m f = (case m of Inl e \<Rightarrow> Inl e | Inr x \<Rightarrow> f x)"

subsection \<open>Shapes of the TensorFlow operations that train.py calls\<close>

text \<open>
  \<^verbatim>\<open>tf.reshape(x, target)\<close>: at most one entry of the target is \<open>-1\<close> and stands for the
  dimension that makes the sizes agree; any other negative entry, a second \<open>-1\<close>, or
  sizes that cannot agree raise ValueError.
\<close>

definition tf_reshape :: "shape \<Rightarrow> int list \<Rightarrow> exn + shape" where
  "tf_reshape x target =
     (let unknown = length (filter (\<lambda>d. d = - 1) target);
          known = prod_list (map nat (filter (\<lambda>d. d \<noteq> - 1) target));
          total = prod_list x
      in if list_ex (\<lambda>d. d < - 1) target \<or> 1 < unknown then Inl ValueError
         else if unknown = 0
              then (if total = known then Inr (map nat target) else Inl ValueError)
              else if known = 0 \<or> total mod known \<noteq> 0 then Inl ValueError
                   else Inr (map (\<lambda>d. if d = - 1 then total div known else nat d) target))"

text \<open>\<^verbatim>\<open>tf.transpose(x, perm)\<close>: \<open>perm\<close> must be a permutation of the axes of \<open>x\<close>.\<close>

definition tf_transpose :: "shape \<Rightarrow> nat list \<Rightarrow> exn + shape" where
  "tf_transpose x perm =
     (if length perm = length x \<and> distinct perm \<and> list_all (\<lambda>p. p < length x) perm
      then Inr (map (\<lambda>p. x ! p) perm)
      else Inl ValueError)"

text \<open>
  \<^verbatim>\<open>tf.matmul(a, b)\<close>: matrices in the last two axes, equal leading axes, and the last
  axis of \<open>a\<close> equal to the last but one of \<open>b\<close>.
\<close>

definition tf_matmul :: "shape \<Rightarrow> shape \<Rightarrow> exn + shape" where
  "tf_matmul a b =
     (if 2 \<le> length a \<and> length a = length b
         \<and> take (length a - 2) a = take (length b - 2) b
         \<and> last a = b ! (length b - 2)
      then Inr (butlast a @ [last b])
      else Inl ValueError)"

text \<open>\<^verbatim>\<open>tf.split(x, num, axis)\<close> into \<open>num\<close> equal parts along an axis.\<close>

definition tf_split :: "shape \<Rightarrow> nat \<Rightarrow> nat \<Rightarrow> exn + shape list" where
  "tf_split x num axis =
     (if axis < length x \<and> 0 < num \<and> x ! axis mod num = 0
      then Inr (replicate num (x[axis := x ! axis div num]))
      else Inl ValueError)"

text \<open>
  The shape of an elementwise operation on two tensors, by broadcasting: the shapes are
  aligned at their last axes.
\<close>

fun broadcast_rev :: "nat list \<Rightarrow> nat list \<Rightarrow> nat list option" where
  "broadcast_rev [] ys = Some ys"
| "broadcast_rev (x # xs) [] = Some (x # xs)"
| "broadcast_rev (x # xs) (y # ys) =
     (case bdim x y of
        None \<Rightarrow> None
      | Some d \<Rightarrow> (case broadcast_rev xs ys of None \<Rightarrow> None | Some ds \<Rightarrow> Some (d # ds)))"

definition tf_broadcast :: "shape \<Rightarrow> shape \<Rightarrow> exn + shape" where
  "tf_broadcast x y =
     (case broadcast_rev (rev x) (rev y) of None \<Rightarrow> Inl ValueError | Some r \<Rightarrow> Inr (rev r))"

text \<open>
  \<^verbatim>\<open>tf.nn.dropout(x, keep_prob)\<close> keeps the shape; a \<open>keep_prob\<close> outside \<open>(0, 1]\<close> raises
  ValueError.
\<close>

definition tf_dropout :: "shape \<Rightarrow> real \<Rightarrow> exn + shape" where
  "tf_dropout x keep_prob = (if 0 < keep_prob \<and> keep_prob \<le> 1 then Inr x else Inl ValueError)"

subsection \<open>The functions of train.py on shapes\<close>

text \<open>\<^verbatim>\<open>shape_list(x)[-1]\<close>; indexing an empty list raises IndexError.\<close>

definition last_dim :: "shape \<Rightarrow> exn + nat" where
  "last_dim x = (if x = [] then Inl IndexError else Inr (last x))"

text \<open>
  \<^verbatim>\<open>
  def dropout(x, pdrop, train):
      if train and pdrop > 0:
          x = tf.nn.dropout(x, 1-pdrop)
      return x
  \<close>
\<close>

definition dropout :: "shape \<Rightarrow> real \<Rightarrow> bool \<Rightarrow> exn + shape" where
  "dropout x pdrop train = (if train \<and> pdrop > 0 then tf_dropout x (1 - pdrop) else Inr x)"

text \<open>
  \<^verbatim>\<open>_norm\<close> and \<^verbatim>\<open>norm\<close>: mean and variance over the last axis with \<^verbatim>\<open>keep_dims\<close>,
  then gain and bias of shape \<^verbatim>\<open>[n_state]\<close>.
\<close>

definition norm_shape :: "shape \<Rightarrow> exn + shape" where
  "norm_shape x =
     bind_exn (last_dim x) (\<lambda>n_state.
     bind_exn (tf_broadcast x (butlast x @ [1])) (\<lambda>centred.
     bind_exn (tf_broadcast centred (butlast x @ [1])) (\<lambda>scaled.
     bind_exn (tf_broadcast scaled [n_state]) (\<lambda>gained.
       tf_broadcast gained [n_state]))))"

text \<open>\<^verbatim>\<open>w*b + -1e9*(1-b)\<close> with \<^verbatim>\<open>b\<close> of shape \<^verbatim>\<open>[1, 1, n, n]\<close>, on shapes.\<close>

definition mask_attn_weights_shape :: "shape \<Rightarrow> exn + shape" where
  "mask_attn_weights_shape w =
     bind_exn (last_dim w) (\<lambda>n.
     bind_exn (tf_broadcast w [1, 1, n, n]) (\<lambda>wb.
       tf_broadcast wb [1, 1, n, n]))"

text \<open>
  \<^verbatim>\<open>
  def split_states(x, n):
      x_shape = shape_list(x)
      m = x_shape[-1]
      new_x_shape = x_shape[:-1]+[n, m//n]
      return tf.reshape(x, new_x_shape)
  \<close>
  \<open>n\<close> is the configured number of heads, a Python integer; \<^verbatim>\<open>m//n\<close> raises for \<open>n = 0\<close>.
\<close>

definition split_states :: "shape \<Rightarrow> int \<Rightarrow> exn + shape" where
  "split_states x n =
     bind_exn (last_dim x) (\<lambda>m.
       if n = 0 then Inl ZeroDivisionError
       else tf_reshape x (map int (butlast x) @ [n, int m div n]))"

text \<open>
  \<^verbatim>\<open>
  def merge_states(x):
      x_shape = shape_list(x)
      new_x_shape = x_shape[:-2]+[np.prod(x_shape[-2:])]
      return tf.reshape(x, new_x_shape)
  \<close>
\<close>

definition merge_states :: "shape \<Rightarrow> exn + shape" where
  "merge_states x =
     tf_reshape x (map int (take (length x - 2) x)
                   @ [int (prod_list (drop (length x - 2) x))])"

definition split_heads :: "shape \<Rightarrow> int \<Rightarrow> bool \<Rightarrow> exn + shape" where
  "split_heads x n k =
     bind_exn (split_states x n) (\<lambda>s.
       if k then tf_transpose s [0, 2, 3, 1] else tf_transpose s [0, 2, 1, 3])"

definition merge_heads :: "shape \<Rightarrow> exn + shape" where
  "merge_heads x = bind_exn (tf_transpose x [0, 2, 1, 3]) merge_states"

text \<open>
  \<^verbatim>\<open>conv1d\<close> with \<^verbatim>\<open>rf == 1\<close>:
  \<^verbatim>\<open>
  nx = shape_list(x)[-1]
  w = tf.get_variable("w", [rf, nx, nf], ...); b = tf.get_variable("b", [nf], ...)
  c = tf.reshape(tf.matmul(tf.reshape(x, [-1, nx]), tf.reshape(w, [-1, nf]))+b,
                 shape_list(x)[:-1]+[nf])
  \<close>
\<close>

definition conv1d :: "shape \<Rightarrow> nat \<Rightarrow> exn + shape" where
  "conv1d x nf =
     bind_exn (last_dim x) (\<lambda>nx.
     bind_exn (tf_reshape x [- 1, int nx]) (\<lambda>x2.
     bind_exn (tf_reshape [1, nx, nf] [- 1, int nf]) (\<lambda>w2.
     bind_exn (tf_matmul x2 w2) (\<lambda>xw.
     bind_exn (tf_broadcast xw [nf]) (\<lambda>xwb.
       tf_reshape xwb (map int (butlast x) @ [int nf]))))))"

text \<open>The configuration values that the block reads from \<^verbatim>\<open>self.params\<close>.\<close>

record block_params =
  n_head :: int
  afn :: string
  attn_pdrop :: real
  resid_pdrop :: real

text \<open>
  \<^verbatim>\<open>
  def _attn(self, q, k, v, train=False, scale=False):
      w = tf.matmul(q, k)
      if scale:
          n_state = shape_list(v)[-1]
          w = w * tf.rsqrt(tf.cast(n_state, tf.float32))
      w = mask_attn_weights(w)
      w = tf.nn.softmax(w)
      w = dropout(w, self.params["attn_pdrop"], train)
      a = tf.matmul(w, v)
      return a
  \<close>
\<close>

definition attn_core :: "block_params \<Rightarrow> shape \<Rightarrow> shape \<Rightarrow> shape \<Rightarrow> bool \<Rightarrow> bool \<Rightarrow> exn + shape" where
  "attn_core ps q k v train scale =
     bind_exn (tf_matmul q k) (\<lambda>w.
     bind_exn (if scale then bind_exn (last_dim v) (\<lambda>n_state. Inr w) else Inr w) (\<lambda>w1.
     bind_exn (mask_attn_weights_shape w1) (\<lambda>w2.
     bind_exn (dropout w2 (attn_pdrop ps) train) (\<lambda>w3.
       tf_matmul w3 v))))"

text \<open>
  \<^verbatim>\<open>
  def attn(self, x, scope, n_state, n_head, train=False, scale=False):
      assert n_state % n_head == 0
      with tf.variable_scope(scope):
          c = conv1d(x, 'c_attn', n_state * 3, 1, train=train)
          q, k, v = tf.split(c, 3, 2)
          q = split_heads(q, n_head)
          k = split_heads(k, n_head, k=True)
          v = split_heads(v, n_head)
          a = self._attn(q, k, v, train=train, scale=scale)
          a = merge_heads(a)
          a = conv1d(a, 'c_proj', n_state, 1, train=train)
          a = dropout(a, self.params["resid_pdrop"], train)
          return a
  \<close>
  The remainder by 0 raises ZeroDivisionError.
\<close>

definition attn :: "block_params \<Rightarrow> shape \<Rightarrow> nat \<Rightarrow> int \<Rightarrow> bool \<Rightarrow> bool \<Rightarrow> exn + shape" where
  "attn ps x n_state nh train scale =
     (if nh = 0 then Inl ZeroDivisionError
      else if int n_state mod nh \<noteq> 0 then Inl AssertionError
      else
        bind_exn (conv1d x (n_state * 3)) (\<lambda>c.
        bind_exn (tf_split c 3 2) (\<lambda>qkv.
        bind_exn (split_heads (qkv ! 0) nh False) (\<lambda>q.
        bind_exn (split_heads (qkv ! 1) nh True) (\<lambda>k.
        bind_exn (split_heads (qkv ! 2) nh False) (\<lambda>v.
        bind_exn (attn_core ps q k v train scale) (\<lambda>a.
        bind_exn (merge_heads a) (\<lambda>a1.
        bind_exn (conv1d a1 n_state) (\<lambda>a2.
          dropout a2 (resid_pdrop ps) train)))))))))"

text \<open>
  \<^verbatim>\<open>
  def mlp(self, x, scope, n_state, train=False):
      with tf.variable_scope(scope):
          nx = shape_list(x)[-1]
          act = act_fns[self.params["afn"]]
          h = act(conv1d(x, 'c_fc', n_state, 1, train=train))
          h2 = conv1d(h, 'c_proj', nx, 1, train=train)
          h2 = dropout(h2, self.params["resid_pdrop"], train)
          return h2
  \<close>
  The activation keeps the shape; an unknown name is a KeyError of the dictionary.
\<close>

definition mlp :: "block_params \<Rightarrow> shape \<Rightarrow> nat \<Rightarrow> bool \<Rightarrow> exn + shape" where
  "mlp ps x n_state train =
     bind_exn (last_dim x) (\<lambda>nx.
       case act_fns (afn ps) of
         None \<Rightarrow> Inl KeyError
       | Some act \<Rightarrow>
           bind_exn (conv1d x n_state) (\<lambda>h.
           bind_exn (conv1d h nx) (\<lambda>h2.
             dropout h2 (resid_pdrop ps) train)))"

text \<open>
  \<^verbatim>\<open>
  def block(self, x, scope, train=False, scale=False):
      with tf.variable_scope(scope):
          nx = shape_list(x)[-1]
          a = self.attn(x, 'attn', nx, self.params["n_head"], train=train, scale=scale)
          n = norm(x + a, 'ln_1')
          m = self.mlp(n, 'mlp', nx * 4, train=train)
          h = norm(n + m, 'ln_2')
          return h
  \<close>
\<close>

definition block :: "block_params \<Rightarrow> shape \<Rightarrow> bool \<Rightarrow> bool \<Rightarrow> exn + shape" where
  "block ps x train scale =
     bind_exn (last_dim x) (\<lambda>nx.
     bind_exn (attn ps x nx (n_head ps) train scale) (\<lambda>a.
     bind_exn (tf_broadcast x a) (\<lambda>xa.
     bind_exn (norm_shape xa) (\<lambda>n.
     bind_exn (mlp ps n (nx * 4) train) (\<lambda>m.
     bind_exn (tf_broadcast n m) (\<lambda>nm.
       norm_shape nm))))))"

section \<open>The language-model head (Model.model)\<close>

text \<open>
  The hidden states \<open>h\<close> have shape \<^verbatim>\<open>[N, n_ctx, n_embd]\<close>, the embedding table \<open>we\<close> has
  one row of \<open>n_embd\<close> entries per token id, \<open>X\<close> (after its reshape to
  \<^verbatim>\<open>[-1, n_ctx, 2]\<close>) holds a token id and a position id in every slot, and \<open>M\<close> (after
  its reshape to \<^verbatim>\<open>[-1, n_ctx]\<close>) is the mask.
\<close>

definition dot :: "real list \<Rightarrow> real list \<Rightarrow> real" where
  "dot u v = sum_list (map2 (*) u v)"

text \<open>
  \<^verbatim>\<open>tf.matmul(lm_h, we, transpose_b=True)\<close>: every row of the left matrix against every
  row of the right one; the rows must have the same length.
\<close>

definition matmul_transpose_b :: "real list list \<Rightarrow> real list list \<Rightarrow> exn + real list list" where
  "matmul_transpose_b xs ws =
     (if list_all (\<lambda>x. list_all (\<lambda>w. length x = length w) ws) xs
      then Inr (map (\<lambda>x. map (dot x) ws) xs)
      else Inl ValueError)"

text \<open>
  The softmax cross-entropy of a vector of logits against a label: minus the logarithm
  of the softmax probability of the label. A label outside the range of the logits is
  an InvalidArgumentError of the CPU kernel.
\<close>

definition xent :: "real list \<Rightarrow> int \<Rightarrow> exn + real" where
  "xent logits y =
     (if 0 \<le> y \<and> y < int (length logits)
      then Inr (ln (sum_list (map exp logits)) - logits ! nat y)
      else Inl InvalidArgumentError)"

text \<open>The results of a list of computations, or the first error.\<close>

fun collect :: "(exn + 'a) list \<Rightarrow> exn + 'a list" where
  "collect [] = Inr []"
| "collect (Inl e # rs) = Inl e"
| "collect (Inr x # rs) = (case collect rs of Inl e \<Rightarrow> Inl e | Inr xs \<Rightarrow> Inr (x # xs))"

text \<open>
  \<^verbatim>\<open>tf.nn.sparse_softmax_cross_entropy_with_logits(logits=..., labels=...)\<close>: one loss
  per row; the number of rows and of labels must agree.
\<close>

definition sparse_softmax_cross_entropy :: "real list list \<Rightarrow> int list \<Rightarrow> exn + real list" where
  "sparse_softmax_cross_entropy logits labels =
     (if length logits \<noteq> length labels then Inl ValueError
      else collect (map2 xent logits labels))"

text \<open>\<^verbatim>\<open>tf.reshape(v, [rows, cols])\<close> of a vector.\<close>

definition tf_reshape2 :: "nat \<Rightarrow> nat \<Rightarrow> 'a list \<Rightarrow> exn + 'a list list" where
  "tf_reshape2 rows cols xs =
     (if length xs = rows * cols
      then Inr (map (\<lambda>r. take cols (drop (r * cols) xs)) [0..<rows])
      else Inl ValueError)"

text \<open>
  \<^verbatim>\<open>tf.reduce_sum(lm_losses * M[:, 1:], 1) / tf.reduce_sum(M[:, 1:], 1)\<close>; the two
  matrices must have the same shape.
\<close>

definition masked_average :: "real list list \<Rightarrow> real list list \<Rightarrow> exn + real list" where
  "masked_average losses M =
     (if list_all2 (\<lambda>l m. length l = length (tl m)) losses M
      then Inr (map2 (\<lambda>l m. sum_list (map2 (*) l (tl m)) / sum_list (tl m)) losses M)
      else Inl ValueError)"

text \<open>
  \<^verbatim>\<open>
  lm_h = tf.reshape(h[:, :-1], [-1, self.params["n_embd"]])
  lm_logits = tf.matmul(lm_h, we, transpose_b=True)
  lm_losses = tf.nn.sparse_softmax_cross_entropy_with_logits(
      logits=lm_logits, labels=tf.reshape(X[:, 1:, 0], [-1]))
  lm_losses = tf.reshape(lm_losses, [shape_list(X)[0], shape_list(X)[1] - 1])
  lm_losses = tf.reduce_sum(lm_losses * M[:, 1:], 1) / tf.reduce_sum(M[:, 1:], 1)
  \<close>
\<close>

definition model_lm_losses ::
  "nat \<Rightarrow> real list list list \<Rightarrow> real list list \<Rightarrow> (int \<times> int) list list \<Rightarrow> real list list
     \<Rightarrow> exn + real list"
where
  "model_lm_losses n_ctx h we X M =
     (let lm_h = concat (map butlast h)
      in case matmul_transpose_b lm_h we of
           Inl e \<Rightarrow> Inl e
         | Inr lm_logits \<Rightarrow>
             (case sparse_softmax_cross_entropy lm_logits (concat (map (\<lambda>x. map fst (tl x)) X)) of
                Inl e \<Rightarrow> Inl e
              | Inr losses \<Rightarrow>
                  (case tf_reshape2 (length X) (n_ctx - 1) losses of
                     Inl e \<Rightarrow> Inl e
                   | Inr losses2 \<Rightarrow> masked_average losses2 M)))"

text \<open>
  For comparison, the loss of one sequence as the specification words it, written out
  entry by entry and independently of the operations above.

  The logits at a position are the hidden state \<open>x\<close> of that position times the transposed
  embedding table: entry \<open>v\<close> of the product is the sum over \<open>k\<close> of \<open>x[k]\<close> times entry
  \<open>(k, v)\<close> of the transpose, which is entry \<open>(v, k)\<close> of the table.
\<close>

definition lm_logit_spec :: "real list \<Rightarrow> real list list \<Rightarrow> nat \<Rightarrow> real" where
  "lm_logit_spec x we v = (\<Sum>k<length x. x ! k * we ! v ! k)"

text \<open>
  The softmax cross-entropy of the logits \<open>z 0, \<dots>, z (V - 1)\<close> against the label \<open>y\<close>:
  minus the logarithm of the probability that the softmax gives to \<open>y\<close>.
\<close>

definition softmax_xent_spec :: "(nat \<Rightarrow> real) \<Rightarrow> nat \<Rightarrow> nat \<Rightarrow> real" where
  "softmax_xent_spec z V y = - ln (exp (z y) / (\<Sum>v<V. exp (z v)))"

text \<open>
  Over the positions \<open>t \<ge> 1\<close>, the cross-entropy between the logits at position \<open>t - 1\<close>
  and the token at position \<open>t\<close>, weighted by the mask at \<open>t\<close>, over the sum of the mask
  from position 1 on.
\<close>

definition lm_loss_spec ::
  "nat \<Rightarrow> real list list \<Rightarrow> real list list \<Rightarrow> (int \<times> int) list \<Rightarrow> real list \<Rightarrow> real"
where
  "lm_loss_spec n_ctx hb we xb mb =
     (\<Sum>t = 1..<n_ctx.
         mb ! t * softmax_xent_spec (lm_logit_spec (hb ! (t - 1)) we) (length we)
                    (nat (fst (xb ! t))))
     / (\<Sum>t = 1..<n_ctx. mb ! t)"

section \<open>The training loss of one replica (Model.mgpu_train)\<close>

text \<open>
  \<^verbatim>\<open>
  if self.params["lm_coef"] > 0:
      train_loss = tf.reduce_mean(clf_losses) + self.params["lm_coef"] * tf.reduce_mean(lm_losses)
  else:
      train_loss = tf.reduce_mean(clf_losses)
  \<close>
\<close>

definition train_loss :: "real \<Rightarrow> real list \<Rightarrow> real list \<Rightarrow> real" where
  "train_loss lm_coef clf_losses lm_losses =
     (if lm_coef > 0
      then reduce_mean clf_losses + lm_coef * reduce_mean lm_losses
      else reduce_mean clf_losses)"

text \<open>The arithmetic mean as the specification words it: the entries added up, over their count.\<close>

definition mean_spec :: "real list \<Rightarrow> real" where
  "mean_spec xs = (\<Sum>i<length xs. xs ! i) / real (length xs)"

section \<open>Parameter transfer and the training loop (Model.train, Model.log, Model.save)\<close>

text \<open>
  The Python slice \<^verbatim>\<open>xs[:k]\<close> for an integer \<open>k\<close>: the first \<open>k\<close> elements when
  \<open>k \<ge> 0\<close>, all but the last \<open>-k\<close> when \<open>k < 0\<close>, clipped at both ends.
\<close>

definition py_take :: "int \<Rightarrow> 'a list \<Rightarrow> 'a list" where
  "py_take k xs = (if 0 \<le> k then take (nat k) xs else take (length xs - nat (- k)) xs)"

text \<open>
  \<^verbatim>\<open>
  if self.params["n_transfer"] == -1:
      self.params["n_transfer"] = 0
  else:
      self.params["n_transfer"] = 1 + self.params["n_transfer"] * 12
  \<close>
\<close>

definition n_transfer_count :: "int \<Rightarrow> int" where
  "n_transfer_count d = (if d = - 1 then 0 else 1 + d * 12)"

text \<open>
  The trainable variables are the list \<^verbatim>\<open>params\<close>; a variable is its index in that
  list and the session holds one value per variable. Tensors are opaque values of a
  type \<open>'t\<close>: the shape validation TensorFlow performs inside \<^verbatim>\<open>assign\<close> is not part
  of train.py and is not modelled.

  \<^verbatim>\<open>zip(params[:n], init_params[:n])\<close>: the pairs of a variable and the value it is
  assigned.
\<close>

definition transfer_pairs :: "int \<Rightarrow> 't list \<Rightarrow> 't list \<Rightarrow> (nat \<times> 't) list" where
  "transfer_pairs d vals init_params =
     (let n = n_transfer_count d
      in zip (py_take n [0..<length vals]) (py_take n init_params))"

text \<open>\<^verbatim>\<open>sess.run([p.assign(ip) for p, ip in pairs])\<close>\<close>

definition run_assigns :: "(nat \<times> 't) list \<Rightarrow> 't list \<Rightarrow> 't list" where
  "run_assigns pairs vals = fold (\<lambda>(k, v) st. st[k := v]) pairs vals"

definition transfer :: "int \<Rightarrow> 't list \<Rightarrow> 't list \<Rightarrow> 't list" where
  "transfer d vals init_params = run_assigns (transfer_pairs d vals init_params) vals"

text \<open>
  The mutable state of a \<^verbatim>\<open>Model\<close> that training reads and writes: the values of the
  trainable variables in the session, the counters, the best score, and the file
  \<^verbatim>\<open>best_params.jl\<close> (\<open>None\<close> while it does not exist). The field \<open>evaluated\<close> is a
  history variable that no operation reads: the variable values and the validation
  accuracy at every call of \<^verbatim>\<open>log\<close>, in order.
\<close>

record 't model_state =
  live :: "'t list"
  best_score :: real
  n_updates :: nat
  n_epochs :: nat
  best_params_file :: "'t list option"
  evaluated :: "('t list \<times> real) list"

text \<open>\<^verbatim>\<open>__init__\<close>: \<^verbatim>\<open>best_score = 0\<close>, \<^verbatim>\<open>n_updates = 0\<close>, \<^verbatim>\<open>n_epochs = 0\<close>.\<close>

definition init_state :: "'t list \<Rightarrow> 't model_state" where
  "init_state vals =
     \<lparr>live = vals, best_score = 0, n_updates = 0, n_epochs = 0,
      best_params_file = None, evaluated = []\<rparr>"

text \<open>\<^verbatim>\<open>save\<close>: \<^verbatim>\<open>ps = self.sess.run(params); joblib.dump(ps, make_path(path))\<close>\<close>

definition save :: "'t model_state \<Rightarrow> 't model_state" where
  "save s = s\<lparr>best_params_file := Some (live s)\<rparr>"

text \<open>
  \<^verbatim>\<open>log\<close>: the validation accuracy \<^verbatim>\<open>va_acc\<close> is computed from the current variable
  values by running the evaluation graph; it is the parameter \<open>va_acc\<close> here.
  \<^verbatim>\<open>
  score = va_acc
  if score > self.best_score:
      self.best_score = score
      self.save(os.path.join(..., 'best_params.jl'), params)
  \<close>
\<close>

definition log_step :: "('t list \<Rightarrow> real) \<Rightarrow> 't model_state \<Rightarrow> 't model_state" where
  "log_step va_acc s =
     (let score = va_acc (live s);
          s1 = s\<lparr>evaluated := evaluated s @ [(live s, score)]\<rparr>
      in if score > best_score s1 then save (s1\<lparr>best_score := score\<rparr>) else s1)"

definition log_updates :: "nat list" where
  "log_updates = [1000, 2000, 4000, 8000, 16000, 32000]"

text \<open>
  The inner loop over the minibatches of one epoch. \<open>upd\<close> is one optimizer step on a
  minibatch (\<^verbatim>\<open>sess.run([clf_loss, train], ...)\<close>).
  \<^verbatim>\<open>
  self.n_updates += 1
  if self.n_updates in [1000, 2000, 4000, 8000, 16000, 32000] and self.n_epochs == 0:
      self.log(params)
  \<close>
\<close>

fun run_batches ::
  "('t list \<Rightarrow> 'b \<Rightarrow> 't list) \<Rightarrow> ('t list \<Rightarrow> real) \<Rightarrow> 't model_state \<Rightarrow> 'b list \<Rightarrow> 't model_state"
where
  "run_batches upd va_acc s [] = s"
| "run_batches upd va_acc s (mb # mbs) =
     (let s1 = s\<lparr>live := upd (live s) mb\<rparr>;
          s2 = s1\<lparr>n_updates := n_updates s1 + 1\<rparr>;
          s3 = (if n_updates s2 \<in> set log_updates \<and> n_epochs s2 = 0
                then log_step va_acc s2 else s2)
      in run_batches upd va_acc s3 mbs)"

text \<open>
  The outer loop \<^verbatim>\<open>for i in range(n_iter)\<close>: one list of minibatches per epoch (the
  shuffled, truncated training set), then \<^verbatim>\<open>self.n_epochs += 1; self.log(params)\<close>.
\<close>

fun run_epochs ::
  "('t list \<Rightarrow> 'b \<Rightarrow> 't list) \<Rightarrow> ('t list \<Rightarrow> real) \<Rightarrow> 't model_state \<Rightarrow> 'b list list \<Rightarrow> 't model_state"
where
  "run_epochs upd va_acc s [] = s"
| "run_epochs upd va_acc s (e # es) =
     (let s1 = run_batches upd va_acc s e;
          s2 = s1\<lparr>n_epochs := n_epochs s1 + 1\<rparr>
      in run_epochs upd va_acc (log_step va_acc s2) es)"

text \<open>
  The reload at the end of \<^verbatim>\<open>train\<close>:
  \<^verbatim>\<open>sess.run([p.assign(ip) for p, ip in zip(params, joblib.load(...))])\<close>;
  \<^verbatim>\<open>joblib.load\<close> raises when the file does not exist.
\<close>

definition reload :: "'t model_state \<Rightarrow> exn + 't model_state" where
  "reload s =
     (case best_params_file s of
        None \<Rightarrow> Inl FileNotFoundError
      | Some ps \<Rightarrow> Inr (s\<lparr>live := run_assigns (zip [0..<length (live s)] ps) (live s)\<rparr>))"

text \<open>
  \<^verbatim>\<open>train\<close>, from the transfer on: \<open>vals\<close> are the freshly initialised variable values,
  \<open>init_params\<close> the adapted pretrained tensors, \<open>d\<close> the configured
  \<^verbatim>\<open>n_transfer\<close>, \<open>epochs\<close> the minibatches of each of the \<^verbatim>\<open>n_iter\<close> epochs.
\<close>

definition train_loop ::
  "('t list \<Rightarrow> 'b \<Rightarrow> 't list) \<Rightarrow> ('t list \<Rightarrow> real) \<Rightarrow> int \<Rightarrow> 't list \<Rightarrow> 't list \<Rightarrow> 'b list list
     \<Rightarrow> 't model_state"
where
  "train_loop upd va_acc d vals init_params epochs =
     run_epochs upd va_acc (save (init_state (transfer d vals init_params))) epochs"

definition train ::
  "('t list \<Rightarrow> 'b \<Rightarrow> 't list) \<Rightarrow> ('t list \<Rightarrow> real) \<Rightarrow> int \<Rightarrow> 't list \<Rightarrow> 't list \<Rightarrow> 'b list list
     \<Rightarrow> exn + 't model_state"
where
  "train upd va_acc d vals init_params epochs =
     reload (train_loop upd va_acc d vals init_params epochs)"

section \<open>Evaluation over minibatches (Model.iter_apply, Model.log)\<close>

text \<open>
  Modelled from the spec: \<^verbatim>\<open>iter_data\<close> is defined in utils.py, which is not under src/.
  It cuts the data into consecutive minibatches of \<open>n_batch\<close> examples; with
  \<^verbatim>\<open>truncate=False\<close> the last minibatch holds the remaining examples when their number
  is not a multiple of \<open>n_batch\<close> (the "partial final batch" of the specification), with
  \<^verbatim>\<open>truncate=True\<close> the remainder is dropped. Its \<^verbatim>\<open>range(0, n, n_batch)\<close> raises for
  a step of 0.
\<close>

definition iter_data :: "nat \<Rightarrow> bool \<Rightarrow> 'a list \<Rightarrow> exn + 'a list list" where
  "iter_data n_batch trunc xs =
     (if n_batch = 0 then Inl ValueError
      else let n = (if trunc then (length xs div n_batch) * n_batch else length xs)
           in Inr (map (\<lambda>k. take n_batch (drop (k * n_batch) xs))
                       [0..<(n + n_batch - 1) div n_batch]))"

text \<open>
  The logits that \<^verbatim>\<open>sess.run\<close> returns are NumPy arrays of dtype \<^verbatim>\<open>float32\<close>. A finite
  single-precision number is \<open>Finite m e\<close>, which stands for \<open>m * 2 ^ e\<close>: the significand
  has at most 24 bits, the exponent is at least \<open>-149\<close> and the magnitude is below
  \<open>2 ^ 128\<close>. The two zeros are not told apart: no comparison does.
\<close>

datatype f32 = Finite int int | PosInf | NegInf | NaN

text \<open>The number of binary digits of a positive integer.\<close>

function bit_length :: "int \<Rightarrow> int" where
  "bit_length m = (if m \<le> 0 then 0 else 1 + bit_length (m div 2))"
  by auto
termination by (relation "measure nat") auto

declare bit_length.simps [simp del]

fun is_f32 :: "f32 \<Rightarrow> bool" where
  "is_f32 (Finite m e) =
     (\<bar>m\<bar> < 2 ^ 24 \<and> - 149 \<le> e \<and> bit_length \<bar>m\<bar> + e \<le> 128)"
| "is_f32 PosInf = True"
| "is_f32 NegInf = True"
| "is_f32 NaN = True"

text \<open>
  \<open>m / 2 ^ k\<close> rounded to the nearest integer, a tie to the even one: the rounding mode
  of the arithmetic.
\<close>

definition round_half_even :: "int \<Rightarrow> nat \<Rightarrow> int" where
  "round_half_even m k =
     (let q = m div 2 ^ k; r = m mod 2 ^ k
      in if 2 * r < 2 ^ k then q
         else if 2 ^ k < 2 * r then q + 1
         else if even q then q else q + 1)"

text \<open>
  The single-precision number nearest to \<open>m * 2 ^ e\<close>: the significand is cut to 24 bits,
  or to fewer where the exponent would fall below \<open>-149\<close>; a result of magnitude \<open>2 ^ 128\<close>
  or more is an infinity.
\<close>

definition f32_round :: "int \<Rightarrow> int \<Rightarrow> f32" where
  "f32_round m e =
     (let k = nat (max (bit_length \<bar>m\<bar> - 24) (- 149 - e));
          m' = round_half_even m k;
          e' = e + int k
      in if 128 < bit_length \<bar>m'\<bar> + e' then (if 0 < m then PosInf else NegInf)
         else if \<bar>m'\<bar> = 2 ^ 24 then Finite (m' div 2) (e' + 1)
         else Finite m' e')"

definition f32_of_nat :: "nat \<Rightarrow> f32" where
  "f32_of_nat n = f32_round (int n) 0"

fun f32_sign :: "f32 \<Rightarrow> int" where
  "f32_sign (Finite m e) = sgn m"
| "f32_sign PosInf = 1"
| "f32_sign NegInf = - 1"
| "f32_sign NaN = 0"

text \<open>
  The product of two single-precision numbers: the exact product of two finite numbers,
  rounded; an infinity times zero, and any product with a NaN, is a NaN.
\<close>

fun f32_mul :: "f32 \<Rightarrow> f32 \<Rightarrow> f32" where
  "f32_mul (Finite m e) (Finite m' e') = f32_round (m * m') (e + e')"
| "f32_mul NaN b = NaN"
| "f32_mul a NaN = NaN"
| "f32_mul a b =
     (if f32_sign a * f32_sign b = 0 then NaN
      else if 0 < f32_sign a * f32_sign b then PosInf else NegInf)"

text \<open>The comparison \<^verbatim>\<open>a <= b\<close>, which is false as soon as one side is a NaN.\<close>

fun f32_le :: "f32 \<Rightarrow> f32 \<Rightarrow> bool" where
  "f32_le (Finite m e) (Finite m' e') =
     (m * 2 ^ nat (e - min e e') \<le> m' * 2 ^ nat (e' - min e e'))"
| "f32_le NaN b = False"
| "f32_le a NaN = False"
| "f32_le NegInf b = True"
| "f32_le a PosInf = True"
| "f32_le a b = False"

text \<open>
  A graph evaluation \<^verbatim>\<open>sess.run([logits, clf_loss], feed)\<close> on a minibatch returns the
  matrix of classification logits, one row per example, and the mean loss.
  \<^verbatim>\<open>res = [r * n for r in res]\<close> multiplies both by the minibatch size: every logit
  by \<open>n\<close> as a single-precision number, in single precision. The type of the mean loss
  and its arithmetic are parameters: \<open>loss_times\<close> is the product of a loss with an integer.
\<close>

type_synonym 'c eval_result = "f32 list list \<times> 'c"

definition scale_result :: "('c \<Rightarrow> nat \<Rightarrow> 'c) \<Rightarrow> nat \<Rightarrow> 'c eval_result \<Rightarrow> 'c eval_result" where
  "scale_result loss_times n res =
     (map (map (\<lambda>v. f32_mul v (f32_of_nat n))) (fst res), loss_times (snd res) n)"

text \<open>
  The graph that \<^verbatim>\<open>iter_apply\<close> runs on a minibatch: the multi-device one when the
  minibatch has \<^verbatim>\<open>n_batch_train\<close> examples, the single-device one otherwise.
\<close>

definition run_eval ::
  "('a list \<Rightarrow> 'c eval_result) \<Rightarrow> ('a list \<Rightarrow> 'c eval_result) \<Rightarrow> nat \<Rightarrow> 'a list
     \<Rightarrow> 'c eval_result"
where
  "run_eval eval_mgpu eval_single n_batch_train mb =
     (if length mb = n_batch_train then eval_mgpu mb else eval_single mb)"

text \<open>
  \<^verbatim>\<open>iter_apply\<close>. The examples \<open>xs\<close> stand for the parallel arrays \<^verbatim>\<open>Xs, Ms, Ys\<close>.
  The function returns the list \<^verbatim>\<open>[logits, cost]\<close>: the scaled logits of all
  minibatches concatenated and the sum (the parameter \<open>loss_sum\<close>) of the scaled losses.
  With no minibatch the returned list is empty, which is \<open>None\<close> here.
\<close>

definition iter_apply ::
  "('c \<Rightarrow> nat \<Rightarrow> 'c) \<Rightarrow> ('c list \<Rightarrow> 'c)
     \<Rightarrow> ('a list \<Rightarrow> 'c eval_result) \<Rightarrow> ('a list \<Rightarrow> 'c eval_result) \<Rightarrow> nat \<Rightarrow> 'a list
     \<Rightarrow> exn + 'c eval_result option"
where
  "iter_apply loss_times loss_sum eval_mgpu eval_single n_batch_train xs =
     (case iter_data n_batch_train False xs of
        Inl e \<Rightarrow> Inl e
      | Inr batches \<Rightarrow>
          (let results =
                 map (\<lambda>mb. scale_result loss_times (length mb)
                              (run_eval eval_mgpu eval_single n_batch_train mb)) batches
           in if results = [] then Inr None
              else Inr (Some (concat (map fst results), loss_sum (map snd results)))))"

text \<open>
  \<^verbatim>\<open>np.argmax\<close> of a vector; it raises on an empty vector. \<open>argmax_from bi bv i xs\<close> scans
  \<open>xs\<close>, whose first element has index \<open>i\<close>, with the best index \<open>bi\<close> and the best value
  \<open>bv\<close> so far: an element replaces the best one unless it is \<^verbatim>\<open><=\<close> to it, and the scan
  stops at the first NaN. Without a NaN the result is the index of the first occurrence
  of the maximum.
\<close>

fun argmax_from :: "nat \<Rightarrow> f32 \<Rightarrow> nat \<Rightarrow> f32 list \<Rightarrow> nat" where
  "argmax_from bi bv i [] = bi"
| "argmax_from bi bv i (x # xs) =
     (if bv = NaN then bi
      else if \<not> f32_le x bv then argmax_from i x (Suc i) xs
      else argmax_from bi bv (Suc i) xs)"

fun np_argmax :: "f32 list \<Rightarrow> exn + nat" where
  "np_argmax [] = Inl ValueError"
| "np_argmax (x # xs) = Inr (argmax_from 0 x 1 xs)"

text \<open>\<^verbatim>\<open>np.argmax(logits, 1)\<close>: the argmax of every row.\<close>

fun np_argmax_rows :: "f32 list list \<Rightarrow> exn + nat list" where
  "np_argmax_rows [] = Inr []"
| "np_argmax_rows (r # rs) =
     (case np_argmax r of
        Inl e \<Rightarrow> Inl e
      | Inr k \<Rightarrow> (case np_argmax_rows rs of Inl e \<Rightarrow> Inl e | Inr ks \<Rightarrow> Inr (k # ks)))"

text \<open>
  \<^verbatim>\<open>accuracy_score(y_true, y_pred) * 100.\<close> as \<^verbatim>\<open>log\<close> computes it from the logits:
  the fraction of positions where the label and the prediction agree; scikit-learn
  raises when the two have different lengths.
\<close>

definition accuracy_score :: "nat list \<Rightarrow> nat list \<Rightarrow> exn + real" where
  "accuracy_score y_true y_pred =
     (if length y_true \<noteq> length y_pred then Inl ValueError
      else Inr (real (length (filter (\<lambda>(a, b). a = b) (zip y_true y_pred)))
                / real (length y_true)))"

definition log_accuracy :: "nat list \<Rightarrow> f32 list list \<Rightarrow> exn + real" where
  "log_accuracy ys logits =
     (case np_argmax_rows logits of
        Inl e \<Rightarrow> Inl e
      | Inr preds \<Rightarrow> (case accuracy_score ys preds of Inl e \<Rightarrow> Inl e | Inr a \<Rightarrow> Inr (a * 100)))"

text \<open>
  For comparison: the logits the graphs return on the minibatches of \<open>xs\<close>, concatenated
  without the multiplication by the minibatch size, as \<^verbatim>\<open>iter_predict\<close> returns them.
\<close>

definition unscaled_logits ::
  "('a list \<Rightarrow> 'c eval_result) \<Rightarrow> ('a list \<Rightarrow> 'c eval_result) \<Rightarrow> nat \<Rightarrow> 'a list list
     \<Rightarrow> f32 list list"
where
  "unscaled_logits eval_mgpu eval_single n_batch_train batches =
     concat (map (\<lambda>mb. fst (run_eval eval_mgpu eval_single n_batch_train mb)) batches)"

section \<open>Input encoding (Model.transform_roc, Model.data_prep)\<close>

text \<open>
  The configuration and encoder values \<^verbatim>\<open>transform_roc\<close> reads: \<^verbatim>\<open>params["n_ctx"]\<close>,
  \<^verbatim>\<open>max_len\<close>, \<^verbatim>\<open>encoder['_start_']\<close>, \<^verbatim>\<open>encoder['_delimiter_']\<close>, \<^verbatim>\<open>clf_token\<close>,
  \<^verbatim>\<open>n_vocab\<close> and \<^verbatim>\<open>n_special\<close>. All are Python integers.
\<close>

record roc_config =
  n_ctx :: int
  max_len :: int
  start_token :: int
  delimiter_token :: int
  clf_token :: int
  n_vocab :: int
  n_special :: int

text \<open>\<^verbatim>\<open>[start] + x1[:max_len] + [delimiter] + x2[:max_len] + [clf_token]\<close>\<close>

definition roc_sequence :: "roc_config \<Rightarrow> int list \<Rightarrow> int list \<Rightarrow> int list" where
  "roc_sequence cfg x1 x2 =
     [start_token cfg] @ py_take (max_len cfg) x1 @ [delimiter_token cfg]
       @ py_take (max_len cfg) x2 @ [clf_token cfg]"

text \<open>
  The NumPy assignment \<^verbatim>\<open>row[:l] = vals\<close> into a one-dimensional row: the slice is
  clipped to the row, a sequence of one element is broadcast, and a sequence of any
  other length than the slice raises ValueError.
\<close>

definition np_set_prefix :: "'a list \<Rightarrow> nat \<Rightarrow> 'a list \<Rightarrow> exn + 'a list" where
  "np_set_prefix row l vals =
     (let k = min l (length row)
      in if length vals = k then Inr (vals @ drop k row)
         else if length vals = 1 then Inr (replicate k (hd vals) @ drop k row)
         else Inl ValueError)"

text \<open>\<^verbatim>\<open>row[:l] = v\<close> for a scalar \<open>v\<close>: never raises.\<close>

definition np_fill_prefix :: "'a list \<Rightarrow> nat \<Rightarrow> 'a \<Rightarrow> 'a list" where
  "np_fill_prefix row l v = replicate (min l (length row)) v @ drop l row"

text \<open>
  One example of the arrays: for each of the two candidates the \<open>n_ctx\<close> token ids
  (\<^verbatim>\<open>xmb[i, c, :, 0]\<close>), the \<open>n_ctx\<close> position ids (\<^verbatim>\<open>xmb[i, c, :, 1]\<close>) and the \<open>n_ctx\<close>
  mask entries (\<^verbatim>\<open>mmb[i, c, :]\<close>).
\<close>

record roc_row =
  tokens :: "int list"
  positions :: "int list"
  mask_vals :: "real list"

text \<open>A row of \<^verbatim>\<open>np.zeros\<close>.\<close>

definition zero_row :: "nat \<Rightarrow> roc_row" where
  "zero_row n = \<lparr>tokens = replicate n 0, positions = replicate n 0, mask_vals = replicate n 0\<rparr>"

text \<open>
  The body of the loop for one candidate:
  \<^verbatim>\<open>l12 = len(x12); xmb[i, 0, :l12, 0] = x12; mmb[i, 0, :l12] = 1\<close>.
\<close>

definition write_candidate :: "roc_row \<Rightarrow> int list \<Rightarrow> exn + roc_row" where
  "write_candidate row x12 =
     (let l12 = length x12
      in case np_set_prefix (tokens row) l12 x12 of
           Inl e \<Rightarrow> Inl e
         | Inr ts \<Rightarrow> Inr (row\<lparr>tokens := ts, mask_vals := np_fill_prefix (mask_vals row) l12 1\<rparr>))"

text \<open>
  The loop \<^verbatim>\<open>for i, (x1, x2, x3) in enumerate(zip(X1, X2, X3))\<close> over the rows of the
  zero-initialised arrays; the first write that raises ends it.
\<close>

fun write_examples ::
  "roc_config \<Rightarrow> (int list \<times> int list \<times> int list) list \<Rightarrow> (roc_row \<times> roc_row) list
     \<Rightarrow> exn + (roc_row \<times> roc_row) list"
where
  "write_examples cfg [] rows = Inr rows"
| "write_examples cfg ((x1, x2, x3) # xs) [] = Inl IndexError"
| "write_examples cfg ((x1, x2, x3) # xs) ((r0, r1) # rows) =
     (case write_candidate r0 (roc_sequence cfg x1 x2) of
        Inl e \<Rightarrow> Inl e
      | Inr r0' \<Rightarrow>
          (case write_candidate r1 (roc_sequence cfg x1 x3) of
             Inl e \<Rightarrow> Inl e
           | Inr r1' \<Rightarrow>
               (case write_examples cfg xs rows of
                  Inl e \<Rightarrow> Inl e
                | Inr rows' \<Rightarrow> Inr ((r0', r1') # rows'))))"

text \<open>
  \<^verbatim>\<open>xmb[:, :, :, 1] = np.arange(n_vocab + n_special, n_vocab + n_special + n_ctx)\<close>
\<close>

definition set_positions :: "roc_config \<Rightarrow> roc_row \<Rightarrow> roc_row" where
  "set_positions cfg row =
     row\<lparr>positions := map (\<lambda>j. n_vocab cfg + n_special cfg + int j) [0..<nat (n_ctx cfg)]\<rparr>"

text \<open>
  \<^verbatim>\<open>transform_roc\<close>. \<^verbatim>\<open>np.zeros\<close> raises ValueError for a negative dimension; the
  arrays have \<^verbatim>\<open>len(X1)\<close> rows.
\<close>

definition transform_roc ::
  "roc_config \<Rightarrow> int list list \<Rightarrow> int list list \<Rightarrow> int list list
     \<Rightarrow> exn + (roc_row \<times> roc_row) list"
where
  "transform_roc cfg X1 X2 X3 =
     (if n_ctx cfg < 0 then Inl ValueError
      else let z = zero_row (nat (n_ctx cfg));
               rows = replicate (length X1) (z, z)
           in case write_examples cfg (zip X1 (zip X2 X3)) rows of
                Inl e \<Rightarrow> Inl e
              | Inr rows' \<Rightarrow>
                  Inr (map (\<lambda>(r0, r1). (set_positions cfg r0, set_positions cfg r1)) rows'))"

text \<open>
  \<^verbatim>\<open>data_prep\<close>, the part that fixes \<^verbatim>\<open>max_len\<close> and \<^verbatim>\<open>n_ctx\<close>:
  \<^verbatim>\<open>
  self.max_len = self.params["n_ctx"]//2-2
  temp = max([len(x1[:self.max_len])+max(len(x2[:self.max_len]), len(x3[:self.max_len]))
              for x1, x2, x3 in zip(trX1, trX2, trX3)] + [... vaX ...] + [... teX ...])
  self.params["n_ctx"] = min(temp + 3, self.params["n_ctx"])
  \<close>
  A data set is its three parallel lists; \<^verbatim>\<open>max\<close> of an empty list raises ValueError.
\<close>

type_synonym roc_data = "int list list \<times> int list list \<times> int list list"

definition pair_lengths :: "int \<Rightarrow> roc_data \<Rightarrow> nat list" where
  "pair_lengths ml d =
     (case d of (X1, X2, X3) \<Rightarrow>
        map (\<lambda>(x1, x2, x3). length (py_take ml x1)
                               + max (length (py_take ml x2)) (length (py_take ml x3)))
            (zip X1 (zip X2 X3)))"

definition py_max :: "nat list \<Rightarrow> exn + nat" where
  "py_max xs = (case xs of [] \<Rightarrow> Inl ValueError | y # ys \<Rightarrow> Inr (fold max ys y))"

definition data_prep_config :: "roc_config \<Rightarrow> roc_data \<Rightarrow> roc_data \<Rightarrow> roc_data \<Rightarrow> exn + roc_config" where
  "data_prep_config cfg tr va te =
     (let ml = n_ctx cfg div 2 - 2
      in case py_max (pair_lengths ml tr @ pair_lengths ml va @ pair_lengths ml te) of
           Inl e \<Rightarrow> Inl e
         | Inr temp \<Rightarrow> Inr (cfg\<lparr>max_len := ml, n_ctx := min (int temp + 3) (n_ctx cfg)\<rparr>))"

text \<open>The three calls of \<^verbatim>\<open>transform_roc\<close> in \<^verbatim>\<open>data_prep\<close>, with the new configuration.\<close>

definition data_prep_arrays ::
  "roc_config \<Rightarrow> roc_data \<Rightarrow> roc_data \<Rightarrow> roc_data
     \<Rightarrow> exn + ((roc_row \<times> roc_row) list \<times> (roc_row \<times> roc_row) list \<times> (roc_row \<times> roc_row) list)"
where
  "data_prep_arrays cfg tr va te =
     (case data_prep_config cfg tr va te of
        Inl e \<Rightarrow> Inl e
      | Inr cfg' \<Rightarrow>
          (case transform_roc cfg' (fst tr) (fst (snd tr)) (snd (snd tr)) of
             Inl e \<Rightarrow> Inl e
           | Inr trX \<Rightarrow>
               (case transform_roc cfg' (fst va) (fst (snd va)) (snd (snd va)) of
                  Inl e \<Rightarrow> Inl e
                | Inr vaX \<Rightarrow>
                    (case transform_roc cfg' (fst te) (fst (snd te)) (snd (snd te)) of
                       Inl e \<Rightarrow> Inl e
                     | Inr teX \<Rightarrow> Inr (trX, vaX, teX)))))"

subsection \<open>Notions used to state properties of the language-model head\<close>

text \<open>
  The losses of one sequence before masking: for every position but the last, the
  cross-entropy of its logits against the token of the next position.
\<close>

definition seq_losses :: "real list list \<Rightarrow> real list list \<Rightarrow> (int \<times> int) list \<Rightarrow> real list" where
  "seq_losses we hb xb =
     map2 (\<lambda>v y. ln (sum_list (map exp (map (dot v) we))) - map (dot v) we ! nat y)
          (butlast hb) (map fst (tl xb))"

subsection \<open>Notions used to state properties of the input encoding\<close>

text \<open>
  The row that holds the sequence \<open>s\<close> in its first \<open>length s\<close> slots: the tokens of \<open>s\<close>
  followed by zeros, the position ids, and a mask of ones over \<open>s\<close> followed by zeros.
\<close>

definition padded_row :: "roc_config \<Rightarrow> int list \<Rightarrow> roc_row" where
  "padded_row cfg s =
     \<lparr>tokens = s @ replicate (nat (n_ctx cfg) - length s) 0,
      positions = map (\<lambda>j. n_vocab cfg + n_special cfg + int j) [0..<nat (n_ctx cfg)],
      mask_vals = replicate (length s) 1 @ replicate (nat (n_ctx cfg) - length s) 0\<rparr>"

text \<open>The arrays in which every example of the zipped inputs sits in such rows.\<close>

definition padded_rows ::
  "roc_config \<Rightarrow> int list list \<Rightarrow> int list list \<Rightarrow> int list list \<Rightarrow> (roc_row \<times> roc_row) list"
where
  "padded_rows cfg X1 X2 X3 =
     map (\<lambda>(x1, x2, x3). (padded_row cfg (roc_sequence cfg x1 x2),
                           padded_row cfg (roc_sequence cfg x1 x3)))
         (zip X1 (zip X2 X3))
     @ replicate (length X1 - length (zip X1 (zip X2 X3))) (padded_row cfg [], padded_row cfg [])"

subsection \<open>Notions used to state properties of the training loop\<close>

text \<open>
  The snapshot that a run of strict-greater-than comparisons keeps: starting from a
  snapshot \<open>b\<close> with its score, an evaluation replaces it exactly when its accuracy is
  strictly greater.
\<close>

fun best_of :: "'p \<times> real \<Rightarrow> ('p \<times> real) list \<Rightarrow> 'p \<times> real" where
  "best_of b [] = b"
| "best_of b (e # evs) = best_of (if snd e > snd b then e else b) evs"

text \<open>
  The invariant of the training loop: the file exists and holds, with \<open>best_score\<close>, the
  snapshot kept over the evaluations so far, and no list of variable values has changed
  its length.
\<close>

definition loop_inv :: "'t list \<Rightarrow> 't model_state \<Rightarrow> bool" where
  "loop_inv p0 s \<longleftrightarrow>
     (\<exists>bp. best_params_file s = Some bp \<and> (bp, best_score s) = best_of (p0, 0) (evaluated s))
     \<and> length (live s) = length p0
     \<and> list_all (\<lambda>e. length (fst e) = length p0) (evaluated s)"

section \<open>Properties\<close>

lemma reduce_mean_is_mean: "reduce_mean xs = mean_spec xs"
  by (simp add: reduce_mean_def mean_spec_def sum_list_sum_nth atLeast0LessThan)

text \<open>
  Claim C7. For every real input \<open>x\<close> the gelu activation returns
  \<open>0.5*x*(1+tanh(sqrt(2/pi)*(x+0.044715*x^3)))\<close>, and it is the function the
  table of activations holds under the name gelu.
\<close>

theorem gelu_formula:
  "gelu x = 0.5 * x * (1 + tanh (sqrt (2 / pi) * (x + 0.044715 * (x * x * x))))
   \<and> act_fns ''gelu'' = Some gelu"
  by (simp add: gelu_def tf_pow_def act_fns_def power3_eq_cube)

text \<open>
  Claim C2. The loss whose gradients a replica takes is
  mean(classification losses) + lm_coef * mean(language-model losses) when
  \<open>lm_coef > 0\<close>, and mean(classification losses) alone when \<open>lm_coef \<le> 0\<close>.
\<close>

theorem train_loss_combined:
  "(lm_coef > 0 \<longrightarrow>
      train_loss lm_coef clf_losses lm_losses
        = mean_spec clf_losses + lm_coef * mean_spec lm_losses)
   \<and> (lm_coef \<le> 0 \<longrightarrow>
      train_loss lm_coef clf_losses lm_losses = mean_spec clf_losses)"
  by (simp add: train_loss_def reduce_mean_is_mean)

theorem train_loss_combined_witness:
  "(1/2 :: real) > 0
   \<and> train_loss (1/2) [1, 3] [2, 6] = mean_spec [1, 3] + (1/2) * mean_spec [2, 6]
   \<and> train_loss (1/2) [1, 3] [2, 6] = 4
   \<and> (0 :: real) \<le> 0
   \<and> train_loss 0 [1, 3] [2, 6] = mean_spec [1, 3]
   \<and> train_loss 0 [1, 3] [2, 6] = 2"
  using train_loss_combined [of "1/2" "[1, 3]" "[2, 6]"]
        train_loss_combined [of 0 "[1, 3]" "[2, 6]"]
  by (simp add: mean_spec_def lessThan_Suc numeral_2_eq_2)

subsection \<open>Parameter transfer and best-model selection\<close>

lemma best_of_snoc:
  "best_of b (evs @ [e]) = (if snd e > snd (best_of b evs) then e else best_of b evs)"
  by (induction evs arbitrary: b) auto

lemma best_of_none:
  "\<forall>i<length evs. snd (evs ! i) \<le> snd b \<Longrightarrow> best_of b evs = b"
proof (induction evs arbitrary: b)
  case Nil then show ?case by simp
next
  case (Cons e evs)
  have "snd e \<le> snd b" using Cons.prems by (auto dest: spec [of _ 0])
  moreover have "\<forall>i<length evs. snd (evs ! i) \<le> snd b"
    using Cons.prems by (auto dest: spec [of _ "Suc i" for i])
  ultimately show ?case using Cons.IH [of b] by simp
qed

lemma best_of_some:
  "\<exists>i<length evs. snd (evs ! i) > snd b \<Longrightarrow>
   \<exists>i<length evs. best_of b evs = evs ! i
      \<and> (\<forall>j<length evs. snd (evs ! j) \<le> snd (evs ! i))
      \<and> (\<forall>j<i. snd (evs ! j) < snd (evs ! i))"
proof (induction evs arbitrary: b rule: rev_induct)
  case Nil then show ?case by simp
next
  case (snoc e evs)
  let ?n = "length evs"
  show ?case
  proof (cases "\<exists>i<?n. snd (evs ! i) > snd b")
    case True
    from snoc.IH [OF True] obtain i where i: "i < ?n" "best_of b evs = evs ! i"
      "\<forall>j<?n. snd (evs ! j) \<le> snd (evs ! i)" "\<forall>j<i. snd (evs ! j) < snd (evs ! i)"
      by blast
    show ?thesis
    proof (cases "snd e > snd (evs ! i)")
      case True
      have "\<forall>j<Suc ?n. snd ((evs @ [e]) ! j) \<le> snd e"
        using i True by (auto simp: nth_append less_Suc_eq intro: order_trans less_imp_le)
      moreover have "\<forall>j<?n. snd ((evs @ [e]) ! j) < snd e"
        using i True by (auto simp: nth_append intro: le_less_trans)
      ultimately show ?thesis
        using True i by (intro exI [of _ ?n]) (simp add: best_of_snoc)
    next
      case False
      have "\<forall>j<Suc ?n. snd ((evs @ [e]) ! j) \<le> snd (evs ! i)"
        using i False by (auto simp: nth_append less_Suc_eq)
      moreover have "\<forall>j<i. snd ((evs @ [e]) ! j) < snd (evs ! i)"
        using i by (auto simp: nth_append)
      ultimately show ?thesis
        using False i by (intro exI [of _ i]) (simp add: best_of_snoc nth_append)
    qed
  next
    case False
    then have le: "\<forall>i<?n. snd (evs ! i) \<le> snd b" by (meson not_less)
    then have b: "best_of b evs = b" by (rule best_of_none)
    from snoc.prems False have gt: "snd e > snd b"
      by (auto simp: nth_append less_Suc_eq)
    have "\<forall>j<Suc ?n. snd ((evs @ [e]) ! j) \<le> snd e"
      using le gt by (auto simp: nth_append less_Suc_eq intro: order_trans less_imp_le)
    moreover have "\<forall>j<?n. snd ((evs @ [e]) ! j) < snd e"
      using le gt by (auto simp: nth_append intro: le_less_trans)
    ultimately show ?thesis
      using gt b by (intro exI [of _ ?n]) (simp add: best_of_snoc)
  qed
qed

lemma loop_inv_start: "loop_inv p0 (save (init_state p0))"
  by (simp add: loop_inv_def save_def init_state_def)

lemma loop_inv_log: "loop_inv p0 s \<Longrightarrow> loop_inv p0 (log_step va_acc s)"
  by (auto simp: loop_inv_def log_step_def save_def Let_def best_of_snoc
           dest: arg_cong [where f = snd] arg_cong [where f = fst])

lemma loop_inv_counters:
  "loop_inv p0 s \<Longrightarrow> loop_inv p0 (s\<lparr>n_updates := k\<rparr>)"
  "loop_inv p0 s \<Longrightarrow> loop_inv p0 (s\<lparr>n_epochs := k\<rparr>)"
  by (simp_all add: loop_inv_def)

lemma loop_inv_upd:
  "loop_inv p0 s \<Longrightarrow> length ps = length p0 \<Longrightarrow> loop_inv p0 (s\<lparr>live := ps\<rparr>)"
  by (simp add: loop_inv_def)

lemma loop_inv_run_batches:
  assumes "\<And>ps mb. length (upd ps mb) = length ps"
  shows "loop_inv p0 s \<Longrightarrow> loop_inv p0 (run_batches upd va_acc s mbs)"
proof (induction mbs arbitrary: s)
  case Nil then show ?case by simp
next
  case (Cons mb mbs)
  have 1: "loop_inv p0 (s\<lparr>live := upd (live s) mb\<rparr>)"
    using Cons.prems assms by (simp add: loop_inv_def)
  then have 2: "loop_inv p0 (s\<lparr>live := upd (live s) mb, n_updates := Suc (n_updates s)\<rparr>)"
    by (simp add: loop_inv_def)
  show ?case
    using 2 loop_inv_log [OF 2] by (auto simp: Let_def intro!: Cons.IH)
qed

lemma loop_inv_run_epochs:
  assumes "\<And>ps mb. length (upd ps mb) = length ps"
  shows "loop_inv p0 s \<Longrightarrow> loop_inv p0 (run_epochs upd va_acc s es)"
proof (induction es arbitrary: s)
  case Nil then show ?case by simp
next
  case (Cons e es)
  have "loop_inv p0 (run_batches upd va_acc s e)"
    using Cons.prems assms by (rule loop_inv_run_batches [rotated])
  then have "loop_inv p0 (log_step va_acc (run_batches upd va_acc s e\<lparr>n_epochs := Suc (n_epochs (run_batches upd va_acc s e))\<rparr>))"
    by (intro loop_inv_log loop_inv_counters)
  then show ?case by (simp add: Let_def Cons.IH)
qed


lemma py_take_nonneg: "0 \<le> k \<Longrightarrow> py_take k xs = take (nat k) xs"
  by (simp add: py_take_def)

lemma run_assigns_zip_upt:
  "n \<le> length vals \<Longrightarrow> length vs = n \<Longrightarrow> run_assigns (zip [0..<n] vs) vals = vs @ drop n vals"
proof (induction vs arbitrary: n rule: rev_induct)
  case Nil
  then show ?case by (simp add: run_assigns_def)
next
  case (snoc v vs)
  then obtain m where m: "n = Suc m" "length vs = m" by (cases n) auto
  have lt: "m < length vals" using snoc.prems m by simp
  have "run_assigns (zip [0..<Suc m] (vs @ [v])) vals
        = (run_assigns (zip [0..<m] vs) vals)[m := v]"
    using m by (simp add: run_assigns_def)
  also have "\<dots> = (vs @ drop m vals)[m := v]"
    using snoc.IH [of m] lt m by simp
  also have "\<dots> = vs @ (drop m vals)[0 := v]"
    using m by (simp add: list_update_append)
  also have "drop m vals = vals ! m # drop (Suc m) vals"
    using lt by (simp add: Cons_nth_drop_Suc)
  finally show ?case using m by simp
qed

lemma transfer_pairs_sentinel: "transfer_pairs (- 1) vals init_params = []"
  by (simp add: transfer_pairs_def n_transfer_count_def py_take_def)

lemma transfer_pairs_prefix:
  assumes "0 \<le> d" "nat (1 + d * 12) \<le> length vals" "nat (1 + d * 12) \<le> length init_params"
  shows "transfer_pairs d vals init_params
         = zip [0..<nat (1 + d * 12)] (take (nat (1 + d * 12)) init_params)"
  using assms by (simp add: transfer_pairs_def n_transfer_count_def py_take_def take_upt Let_def)

lemma reload_loop_inv:
  assumes "loop_inv p0 s"
  shows "\<exists>s'. reload s = Inr s' \<and> evaluated s' = evaluated s
           \<and> (live s', best_score s') = best_of (p0, 0) (evaluated s)"
proof -
  from assms obtain bp where bp: "best_params_file s = Some bp"
      "(bp, best_score s) = best_of (p0, 0) (evaluated s)"
      and len: "length (live s) = length p0"
      and all: "list_all (\<lambda>e. length (fst e) = length p0) (evaluated s)"
    by (auto simp: loop_inv_def)
  have "length (fst (best_of (p0, 0) evs)) = length p0"
    if "list_all (\<lambda>e. length (fst e) = length p0) evs" for evs
    using that by (induction evs rule: rev_induct) (auto simp: best_of_snoc)
  from this [OF all] bp(2) have "length bp = length p0"
    by (metis fst_conv)
  then have "run_assigns (zip [0..<length (live s)] bp) (live s) = bp"
    using run_assigns_zip_upt [of "length (live s)" "live s" bp] len by simp
  then show ?thesis using bp by (simp add: reload_def)
qed

lemma train_loop_inv:
  assumes "\<And>ps mb. length (upd ps mb) = length ps"
  shows "loop_inv (transfer d vals init_params) (train_loop upd va_acc d vals init_params es)"
  unfolding train_loop_def
  by (rule loop_inv_run_epochs [OF assms loop_inv_start])

lemma log_file:
  "best_params_file (log_step va_acc s)
     = (if va_acc (live s) > best_score s then Some (live s) else best_params_file s)"
  "best_score (log_step va_acc s) = max (best_score s) (va_acc (live s))"
  "live (log_step va_acc s) = live s"
  "evaluated (log_step va_acc s) = evaluated s @ [(live s, va_acc (live s))]"
  by (simp_all add: log_step_def save_def Let_def)

text \<open>Evaluation rules of the loop on a state written out field by field.\<close>

lemma log_exec:
  "log_step va_acc \<lparr>live = l, best_score = b, n_updates = u, n_epochs = e,
               best_params_file = f, evaluated = ev\<rparr>
   = \<lparr>live = l, best_score = max b (va_acc l), n_updates = u, n_epochs = e,
      best_params_file = (if va_acc l > b then Some l else f),
      evaluated = ev @ [(l, va_acc l)]\<rparr>"
  by (simp add: log_step_def save_def Let_def)

lemma run_batches_exec:
  "run_batches upd va_acc \<lparr>live = l, best_score = b, n_updates = u, n_epochs = e,
               best_params_file = f, evaluated = ev\<rparr> (mb # mbs)
   = run_batches upd va_acc
       (if u + 1 \<in> set log_updates \<and> e = 0
        then log_step va_acc \<lparr>live = upd l mb, best_score = b, n_updates = u + 1, n_epochs = e,
               best_params_file = f, evaluated = ev\<rparr>
        else \<lparr>live = upd l mb, best_score = b, n_updates = u + 1, n_epochs = e,
               best_params_file = f, evaluated = ev\<rparr>) mbs"
  by (simp add: Let_def)

lemma bump_epoch_exec:
  "\<lparr>live = l, best_score = b, n_updates = u, n_epochs = e,
               best_params_file = f, evaluated = ev\<rparr>\<lparr>n_epochs := k\<rparr>
   = \<lparr>live = l, best_score = b, n_updates = u, n_epochs = k,
               best_params_file = f, evaluated = ev\<rparr>"
  by simp

lemma run_epochs_exec:
  "run_batches upd va_acc s e = \<lparr>live = l, best_score = b, n_updates = u, n_epochs = k,
               best_params_file = f, evaluated = ev\<rparr>
   \<Longrightarrow> run_epochs upd va_acc s (e # es)
     = run_epochs upd va_acc
         (log_step va_acc \<lparr>live = l, best_score = b, n_updates = u, n_epochs = k + 1,
               best_params_file = f, evaluated = ev\<rparr>) es"
  by (simp add: Let_def)

lemma reload_exec:
  "reload \<lparr>live = l, best_score = b, n_updates = u, n_epochs = e,
               best_params_file = Some ps, evaluated = ev\<rparr>
   = Inr \<lparr>live = run_assigns (zip [0..<length l] ps) l, best_score = b, n_updates = u,
          n_epochs = e, best_params_file = Some ps, evaluated = ev\<rparr>"
  by (simp add: reload_def)

lemmas train_exec = train_def train_loop_def reload_exec log_exec run_batches_exec
  run_epochs_exec save_def init_state_def transfer_def transfer_pairs_def
  n_transfer_count_def py_take_def run_assigns_def log_updates_def

text \<open>
  Claim C5 (as amended). When the configured transfer value \<open>d\<close> is \<open>-1\<close> no pretrained
  tensor is copied. When \<open>d \<ge> 0\<close> and both the trainable variables and the pretrained
  tensors number at least \<open>1 + d*12\<close>, exactly \<open>1 + d*12\<close> tensors are copied: pretrained
  tensor \<open>k\<close> is assigned to variable \<open>k\<close> for every \<open>k\<close> below that count, and every
  later variable keeps its initial value.
\<close>

theorem transfer_depth:
  assumes "d = - 1 \<or> (0 \<le> d \<and> 1 + d * 12 \<le> int (length vals)
                        \<and> 1 + d * 12 \<le> int (length init_params))"
  shows "int (length (transfer_pairs d vals init_params)) = (if d = - 1 then 0 else 1 + d * 12)
       \<and> transfer d vals init_params
           = take (length (transfer_pairs d vals init_params)) init_params
             @ drop (length (transfer_pairs d vals init_params)) vals"
proof (cases "d = - 1")
  case True
  then show ?thesis
    by (simp add: transfer_pairs_sentinel transfer_def run_assigns_def)
next
  case False
  let ?n = "nat (1 + d * 12)"
  from False assms have d: "0 \<le> d" "?n \<le> length vals" "?n \<le> length init_params"
    by auto
  have pairs: "transfer_pairs d vals init_params = zip [0..<?n] (take ?n init_params)"
    using d by (rule transfer_pairs_prefix)
  have len: "length (transfer_pairs d vals init_params) = ?n"
    using d by (simp add: pairs)
  have "transfer d vals init_params = take ?n init_params @ drop ?n vals"
    unfolding transfer_def pairs
    using d by (intro run_assigns_zip_upt) simp_all
  then show ?thesis using False d len by simp
qed

theorem transfer_depth_witness:
  "(0::int) \<le> 1 \<and> 1 + 1 * 12 \<le> int (length [0, 1, 2, 3, 4, 5, 6, 7, 8, 9, 10, 11, 12, 13, 14 :: nat])
   \<and> length (transfer_pairs 1 [0, 1, 2, 3, 4, 5, 6, 7, 8, 9, 10, 11, 12, 13, 14 :: nat]
               [20, 21, 22, 23, 24, 25, 26, 27, 28, 29, 30, 31, 32, 33]) = 13
   \<and> transfer 1 [0, 1, 2, 3, 4, 5, 6, 7, 8, 9, 10, 11, 12, 13, 14 :: nat]
               [20, 21, 22, 23, 24, 25, 26, 27, 28, 29, 30, 31, 32, 33]
       = [20, 21, 22, 23, 24, 25, 26, 27, 28, 29, 30, 31, 32, 13, 14]
   \<and> transfer (- 1) [0, 1, 2 :: nat] [20, 21, 22] = [0, 1, 2]"
  using transfer_depth [of 1 "[0, 1, 2, 3, 4, 5, 6, 7, 8, 9, 10, 11, 12, 13, 14 :: nat]"
                          "[20, 21, 22, 23, 24, 25, 26, 27, 28, 29, 30, 31, 32, 33]"]
        transfer_depth [of "- 1" "[0, 1, 2 :: nat]" "[20, 21, 22]"]
  by (simp add: nat_eq_iff)

text \<open>
  The claim as stated, for every \<open>d\<close>, fails: the slices \<^verbatim>\<open>params[:n]\<close> and
  \<^verbatim>\<open>init_params[:n]\<close> count from the end for a negative \<open>n\<close> and stop at the end of
  the list for a large one. With 27 variables (two layers) and 145 pretrained tensors,
  \<open>d = -2\<close> copies 4 tensors, not \<open>-23\<close>; with 147 variables (twelve layers), \<open>d = 13\<close>
  copies 145, not 157.
\<close>

theorem transfer_depth_counterexample:
  "int (length (transfer_pairs (- 2) [0..<27 :: nat] [100..<245 :: nat])) \<noteq> 1 + (- 2) * 12
   \<and> length (transfer_pairs (- 2) [0..<27 :: nat] [100..<245 :: nat]) = 4
   \<and> int (length (transfer_pairs 13 [0..<147 :: nat] [100..<245 :: nat])) \<noteq> 1 + 13 * 12
   \<and> length (transfer_pairs 13 [0..<147 :: nat] [100..<245 :: nat]) = 145"
  by (simp add: transfer_pairs_def n_transfer_count_def py_take_def)

text \<open>
  Claim C1 (as amended). A call of \<^verbatim>\<open>log\<close> whose validation accuracy is strictly greater
  than the best score so far overwrites the file with the current variable values, and
  any other call leaves the file as it is. \<^verbatim>\<open>train\<close> returns, and at its end the live
  variable values are: when some evaluation had an accuracy above 0, those of the first
  evaluation that attained the maximum accuracy; when none had (or there was no
  evaluation), the values saved before the first update, that is the post-transfer
  initial values.
\<close>

theorem best_model_selection:
  assumes "\<And>ps mb. length (upd ps mb) = length ps"
  shows "best_params_file (log_step va_acc s0)
           = (if va_acc (live s0) > best_score s0 then Some (live s0) else best_params_file s0)
       \<and> (\<exists>s. train upd va_acc d vals init_params epochs = Inr s
            \<and> ((\<exists>i<length (evaluated s). snd (evaluated s ! i) > 0) \<longrightarrow>
                 (\<exists>i<length (evaluated s).
                     live s = fst (evaluated s ! i)
                   \<and> (\<forall>j<length (evaluated s). snd (evaluated s ! j) \<le> snd (evaluated s ! i))
                   \<and> (\<forall>j<i. snd (evaluated s ! j) < snd (evaluated s ! i))))
            \<and> ((\<forall>i<length (evaluated s). snd (evaluated s ! i) \<le> 0) \<longrightarrow>
                 live s = transfer d vals init_params))"
proof -
  let ?p0 = "transfer d vals init_params"
  let ?l = "train_loop upd va_acc d vals init_params epochs"
  have "loop_inv ?p0 ?l" using assms by (rule train_loop_inv)
  from reload_loop_inv [OF this] obtain s where s: "reload ?l = Inr s"
      "evaluated s = evaluated ?l" "(live s, best_score s) = best_of (?p0, 0) (evaluated s)"
    by auto
  have some: "\<exists>i<length (evaluated s).
                     live s = fst (evaluated s ! i)
                   \<and> (\<forall>j<length (evaluated s). snd (evaluated s ! j) \<le> snd (evaluated s ! i))
                   \<and> (\<forall>j<i. snd (evaluated s ! j) < snd (evaluated s ! i))"
    if "\<exists>i<length (evaluated s). snd (evaluated s ! i) > 0"
  proof -
    from that have "\<exists>i<length (evaluated s). snd (evaluated s ! i) > snd (?p0, 0::real)" by simp
    from best_of_some [OF this] obtain i where i: "i < length (evaluated s)"
        "best_of (?p0, 0) (evaluated s) = evaluated s ! i"
        "\<forall>j<length (evaluated s). snd (evaluated s ! j) \<le> snd (evaluated s ! i)"
        "\<forall>j<i. snd (evaluated s ! j) < snd (evaluated s ! i)"
      by blast
    from i(2) s(3) have "live s = fst (evaluated s ! i)" by (metis fst_conv)
    with i show ?thesis by blast
  qed
  have none: "live s = ?p0" if "\<forall>i<length (evaluated s). snd (evaluated s ! i) \<le> 0"
  proof -
    from that have "\<forall>i<length (evaluated s). snd (evaluated s ! i) \<le> snd (?p0, 0::real)" by simp
    from best_of_none [OF this] s(3) show ?thesis by simp
  qed
  show ?thesis
    using s(1) some none by (simp add: train_def log_file)
qed

text \<open>
  The specification's example: the accuracies 70, 85, 80, 90, 88 of five epochs; the run
  ends on the snapshot of accuracy 90.
\<close>

theorem best_model_selection_witness:
  "(\<forall>ps mb. length (map ((+) (mb::real)) ps) = length ps)
   \<and> train (\<lambda>ps mb. map ((+) mb) ps) sum_list (- 1) [0] [] [[70], [15], [- 5], [10], [- 2]]
       = Inr \<lparr>live = [90], best_score = 90, n_updates = 5, n_epochs = 5,
              best_params_file = Some [90],
              evaluated = [([70], 70), ([85], 85), ([80], 80), ([90], 90), ([88], 88)]\<rparr>"
proof -
  have h: "\<And>ps (mb::real). length (map ((+) mb) ps) = length ps" by simp
  have ev: "train (\<lambda>ps mb. map ((+) mb) ps) sum_list (- 1) [0] [] [[70], [15], [- 5], [10], [- 2]]
       = Inr \<lparr>live = [90], best_score = 90, n_updates = 5, n_epochs = 5,
              best_params_file = Some [90],
              evaluated = [([70], 70), ([85], 85), ([80], 80), ([90], 90), ([88], 88)]\<rparr>"
    by (simp add: train_exec del: run_epochs.simps(2) run_batches.simps(2))
  from best_model_selection [of "\<lambda>ps mb. map ((+) mb) ps" sum_list _ "- 1" "[0]" "[]"
                                "[[70], [15], [- 5], [10], [- 2]]", OF h]
  obtain s where s: "train (\<lambda>ps mb. map ((+) mb) ps) sum_list (- 1) [0] []
                        [[70], [15], [- 5], [10], [- 2]] = Inr s"
    by blast
  with ev have "s = \<lparr>live = [90], best_score = 90, n_updates = 5, n_epochs = 5,
              best_params_file = Some [90],
              evaluated = [([70], 70), ([85], 85), ([80], 80), ([90], 90), ([88], 88)]\<rparr>"
    by simp
  with s h show ?thesis by simp
qed

text \<open>
  The claim as stated, for every sequence of accuracies, fails when no accuracy exceeds
  0: two epochs are evaluated at the variable values \<open>[0, 1]\<close> and \<open>[0, 2]\<close>, both with
  accuracy 0 (the accuracy is read off the first variable here), and the run ends on the
  initial values \<open>[0, 7]\<close>, which are those of no evaluation.
\<close>

theorem best_model_selection_counterexample:
  "train (curry snd) hd (- 1) [0, 7] [] [[[0, 1]], [[0, 2]]]
     = Inr \<lparr>live = [0, 7], best_score = 0, n_updates = 2, n_epochs = 2,
            best_params_file = Some [0, 7],
            evaluated = [([0, 1], 0), ([0, 2], 0)]\<rparr>"
  by (simp add: train_exec del: run_epochs.simps(2) run_batches.simps(2))

text \<open>
  Claim C9. \<^verbatim>\<open>best_score\<close> starts at 0; \<^verbatim>\<open>train\<close> writes the post-transfer variable
  values to the file before the first update; at every point of the training loop (after
  any number of whole epochs and any number of minibatches of the next one) the file
  exists; the reload at the end finds it; and a run in which no validation accuracy
  exceeds 0 ends on the post-transfer initial values.
\<close>

theorem checkpoint_always_exists:
  assumes "\<And>ps mb. length (upd ps mb) = length ps"
  shows "best_score (init_state vals) = 0
       \<and> n_updates (save (init_state (transfer d vals init_params))) = 0
       \<and> best_params_file (save (init_state (transfer d vals init_params)))
           = Some (transfer d vals init_params)
       \<and> best_params_file
           (run_batches upd va_acc (train_loop upd va_acc d vals init_params es) mbs) \<noteq> None
       \<and> (\<exists>s. train upd va_acc d vals init_params es = Inr s
            \<and> ((\<forall>i<length (evaluated s). snd (evaluated s ! i) \<le> 0) \<longrightarrow>
                 live s = transfer d vals init_params))"
proof -
  let ?p0 = "transfer d vals init_params"
  let ?l = "train_loop upd va_acc d vals init_params es"
  have inv: "loop_inv ?p0 ?l" using assms by (rule train_loop_inv)
  have "loop_inv ?p0 (run_batches upd va_acc ?l mbs)"
    using assms inv by (rule loop_inv_run_batches)
  then have mid: "best_params_file (run_batches upd va_acc ?l mbs) \<noteq> None"
    by (auto simp: loop_inv_def)
  from reload_loop_inv [OF inv] obtain s where s: "reload ?l = Inr s"
      "(live s, best_score s) = best_of (?p0, 0) (evaluated s)"
    by auto
  have "live s = ?p0" if "\<forall>i<length (evaluated s). snd (evaluated s ! i) \<le> 0"
  proof -
    from that have "\<forall>i<length (evaluated s). snd (evaluated s ! i) \<le> snd (?p0, 0::real)" by simp
    from best_of_none [OF this] s(2) show ?thesis by simp
  qed
  with s(1) mid show ?thesis
    by (simp add: train_def init_state_def save_def)
qed

theorem checkpoint_always_exists_witness:
  "(\<forall>ps mb. length (map ((*) (mb::real)) ps) = length ps)
   \<and> best_params_file (run_batches (\<lambda>ps mb. map ((*) mb) ps) hd
        (train_loop (\<lambda>ps mb. map ((*) mb) ps) hd (- 1) [0, 7] [] [[2, 3], [1]]) [1])
       = Some [0, 7]
   \<and> train (\<lambda>ps mb. map ((*) mb) ps) hd (- 1) [0, 7] [] [[2, 3], [1]]
       = Inr \<lparr>live = [0, 7], best_score = 0, n_updates = 3, n_epochs = 2,
              best_params_file = Some [0, 7],
              evaluated = [([0, 42], 0), ([0, 42], 0)]\<rparr>"
proof -
  have h: "\<And>ps (mb::real). length (map ((*) mb) ps) = length ps" by simp
  have mid: "best_params_file (run_batches (\<lambda>ps mb. map ((*) mb) ps) hd
        (train_loop (\<lambda>ps mb. map ((*) mb) ps) hd (- 1) [0, 7] [] [[2, 3], [1]]) [1])
       = Some [0, 7]"
    by (simp add: train_exec del: run_epochs.simps(2) run_batches.simps(2))
  have ev: "train (\<lambda>ps mb. map ((*) mb) ps) hd (- 1) [0, 7] [] [[2, 3], [1]]
       = Inr \<lparr>live = [0, 7], best_score = 0, n_updates = 3, n_epochs = 2,
              best_params_file = Some [0, 7],
              evaluated = [([0, 42], 0), ([0, 42], 0)]\<rparr>"
    by (simp add: train_exec del: run_epochs.simps(2) run_batches.simps(2))
  from checkpoint_always_exists [of "\<lambda>ps mb. map ((*) mb) ps" "[0, 7]" "- 1" "[]" hd
                                    "[[2, 3], [1]]" "[1]", OF h]
  obtain s where s: "train (\<lambda>ps mb. map ((*) mb) ps) hd (- 1) [0, 7] [] [[2, 3], [1]] = Inr s"
    by blast
  with ev have "s = \<lparr>live = [0, 7], best_score = 0, n_updates = 3, n_epochs = 2,
              best_params_file = Some [0, 7],
              evaluated = [([0, 42], 0), ([0, 42], 0)]\<rparr>"
    by simp
  with s h mid show ?thesis by simp
qed

subsection \<open>Evaluation over minibatches\<close>

lemma iter_data_nonempty:
  assumes "iter_data n_batch trunc xs = Inr batches" "mb \<in> set batches"
  shows "mb \<noteq> []"
proof -
  from assms(1) have pos: "0 < n_batch" by (auto simp: iter_data_def split: if_splits)
  define n where "n = (if trunc then (length xs div n_batch) * n_batch else length xs)"
  have n: "n \<le> length xs" by (simp add: n_def)
  from assms pos obtain k where k: "k < (n + n_batch - 1) div n_batch"
      "mb = take n_batch (drop (k * n_batch) xs)"
    by (auto simp: iter_data_def n_def Let_def)
  have "k * n_batch < n"
  proof (rule ccontr)
    assume "\<not> k * n_batch < n"
    then have "n + n_batch - 1 < Suc k * n_batch" using pos by simp
    then have "(n + n_batch - 1) div n_batch < Suc k" by (rule less_mult_imp_div_less)
    with k(1) show False by simp
  qed
  with n pos show ?thesis by (simp add: k(2))
qed

text \<open>
  The product with a minibatch size is rounded: two different logits can have the same
  product. So it is with the neighbouring single-precision numbers \<open>12582913 * 2 ^ -23\<close>
  and \<open>12582914 * 2 ^ -23\<close> (the bit patterns \<^verbatim>\<open>0x3fc00001\<close> and \<^verbatim>\<open>0x3fc00002\<close>) and the
  size 22; with the size 32, a power of two, both products are exact.
\<close>

lemma f32_mul_22_collision:
  "f32_mul (Finite 12582913 (- 23)) (f32_of_nat 22) = Finite 8650753 (- 18)
   \<and> f32_mul (Finite 12582914 (- 23)) (f32_of_nat 22) = Finite 8650753 (- 18)
   \<and> \<not> f32_le (Finite 12582914 (- 23)) (Finite 12582913 (- 23))"
  by code_simp

lemma f32_mul_32_exact:
  "f32_mul (Finite 12582913 (- 23)) (f32_of_nat 32) = Finite 12582913 (- 18)
   \<and> f32_mul (Finite 12582914 (- 23)) (f32_of_nat 32) = Finite 12582914 (- 18)"
  by code_simp

text \<open>
  Claim C10, at 54 examples evaluated in minibatches of 32: a full minibatch and a final
  one of 22 examples. The two classification logits of every example are the
  single-precision numbers \<open>12582913 * 2 ^ -23\<close> and \<open>12582914 * 2 ^ -23\<close>, the second the
  larger; the graphs return them with the mean loss 1 (the function \<open>prod.swap \<circ> Pair 1\<close>
  maps a minibatch \<open>mb\<close> to \<open>(mb, 1)\<close>, a minibatch being its matrix of logits), and the
  loss is a natural number. \<^verbatim>\<open>iter_apply\<close> returns the logits of the first 32 rows
  multiplied by 32 exactly, and both logits of each of the last 22 rows as
  \<open>8650753 * 2 ^ -18\<close>. The row-wise argmax of the returned logits is 1 in the first 32
  rows and 0 in the last 22, that of the unscaled logits is 1 in every row; against the
  labels 1 the accuracy that \<^verbatim>\<open>log\<close> computes is \<open>1600 / 27\<close>, about 59.26, from the
  returned logits and 100 from the unscaled ones. The argmax and the accuracy are not
  those of the unscaled logits.
\<close>

theorem iter_apply_scaling_changes_argmax:
  "list_all is_f32 [Finite 12582913 (- 23), Finite 12582914 (- 23)]
   \<and> iter_apply (*) sum_list (prod.swap \<circ> Pair (1 :: nat)) (prod.swap \<circ> Pair 1) 32
       (replicate 54 [Finite 12582913 (- 23), Finite 12582914 (- 23)])
     = Inr (Some (replicate 32 [Finite 12582913 (- 18), Finite 12582914 (- 18)]
                  @ replicate 22 [Finite 8650753 (- 18), Finite 8650753 (- 18)], 54))
   \<and> np_argmax_rows (replicate 32 [Finite 12582913 (- 18), Finite 12582914 (- 18)]
                      @ replicate 22 [Finite 8650753 (- 18), Finite 8650753 (- 18)])
     = Inr (replicate 32 1 @ replicate 22 0)
   \<and> iter_data 32 False (replicate 54 [Finite 12582913 (- 23), Finite 12582914 (- 23)])
     = Inr [replicate 32 [Finite 12582913 (- 23), Finite 12582914 (- 23)],
            replicate 22 [Finite 12582913 (- 23), Finite 12582914 (- 23)]]
   \<and> np_argmax_rows
       (unscaled_logits (prod.swap \<circ> Pair (1 :: nat)) (prod.swap \<circ> Pair 1) 32
          [replicate 32 [Finite 12582913 (- 23), Finite 12582914 (- 23)],
           replicate 22 [Finite 12582913 (- 23), Finite 12582914 (- 23)]])
     = Inr (replicate 54 1)
   \<and> log_accuracy (replicate 54 1)
       (replicate 32 [Finite 12582913 (- 18), Finite 12582914 (- 18)]
        @ replicate 22 [Finite 8650753 (- 18), Finite 8650753 (- 18)]) = Inr (1600 / 27)
   \<and> log_accuracy (replicate 54 1)
       (unscaled_logits (prod.swap \<circ> Pair (1 :: nat)) (prod.swap \<circ> Pair 1) 32
          [replicate 32 [Finite 12582913 (- 23), Finite 12582914 (- 23)],
           replicate 22 [Finite 12582913 (- 23), Finite 12582914 (- 23)]]) = Inr 100"
  by code_simp

subsection \<open>Input encoding\<close>

lemma py_take_length: "0 \<le> ml \<Longrightarrow> length (py_take ml x) \<le> nat ml"
  by (simp add: py_take_def)

lemma roc_sequence_length:
  "length (roc_sequence cfg x1 x2)
     = 3 + length (py_take (max_len cfg) x1) + length (py_take (max_len cfg) x2)"
  by (simp add: roc_sequence_def)

lemma roc_sequence_bound:
  assumes "0 \<le> max_len cfg"
  shows "int (length (roc_sequence cfg x1 x2)) \<le> 2 * max_len cfg + 3"
  using py_take_length [OF assms, of x1] py_take_length [OF assms, of x2] assms
  by (simp add: roc_sequence_length)

lemma write_candidate_zero:
  assumes "length s \<le> n"
  shows "write_candidate (zero_row n) s
         = Inr \<lparr>tokens = s @ replicate (n - length s) 0, positions = replicate n 0,
                mask_vals = replicate (length s) 1 @ replicate (n - length s) 0\<rparr>"
  using assms by (simp add: write_candidate_def np_set_prefix_def np_fill_prefix_def zero_row_def
      min_absorb1 Let_def)

lemma write_candidate_overflow:
  assumes "n < length s" "length s \<noteq> 1"
  shows "write_candidate (zero_row n) s = Inl ValueError"
  using assms by (simp add: write_candidate_def np_set_prefix_def zero_row_def min_absorb2 Let_def)

lemma write_examples_fit:
  assumes "\<forall>(x1, x2, x3) \<in> set xs. length (roc_sequence cfg x1 x2) \<le> n
                                   \<and> length (roc_sequence cfg x1 x3) \<le> n"
    and "length xs \<le> m"
  shows "write_examples cfg xs (replicate m (zero_row n, zero_row n))
         = Inr (map (\<lambda>(x1, x2, x3).
                   (\<lparr>tokens = roc_sequence cfg x1 x2 @ replicate (n - length (roc_sequence cfg x1 x2)) 0,
                     positions = replicate n 0,
                     mask_vals = replicate (length (roc_sequence cfg x1 x2)) 1
                            @ replicate (n - length (roc_sequence cfg x1 x2)) 0\<rparr>,
                    \<lparr>tokens = roc_sequence cfg x1 x3 @ replicate (n - length (roc_sequence cfg x1 x3)) 0,
                     positions = replicate n 0,
                     mask_vals = replicate (length (roc_sequence cfg x1 x3)) 1
                            @ replicate (n - length (roc_sequence cfg x1 x3)) 0\<rparr>)) xs
                @ replicate (m - length xs) (zero_row n, zero_row n))"
  using assms
proof (induction xs arbitrary: m)
  case Nil
  then show ?case by simp
next
  case (Cons x xs)
  obtain x1 x2 x3 where x: "x = (x1, x2, x3)" by (cases x) auto
  from Cons.prems(2) obtain m' where m: "m = Suc m'" "length xs \<le> m'" by (cases m) auto
  from Cons.prems(1) x have fit: "length (roc_sequence cfg x1 x2) \<le> n"
      "length (roc_sequence cfg x1 x3) \<le> n"
    by auto
  from Cons.prems(1) have rest: "\<forall>(x1, x2, x3) \<in> set xs. length (roc_sequence cfg x1 x2) \<le> n
                                   \<and> length (roc_sequence cfg x1 x3) \<le> n"
    by simp
  show ?case
    using Cons.IH [OF rest m(2)]
    by (simp add: x m write_candidate_zero [OF fit(1)] write_candidate_zero [OF fit(2)])
qed

lemma transform_roc_fit:
  assumes "0 \<le> n_ctx cfg"
    and "\<forall>(x1, x2, x3) \<in> set (zip X1 (zip X2 X3)).
           int (length (roc_sequence cfg x1 x2)) \<le> n_ctx cfg
         \<and> int (length (roc_sequence cfg x1 x3)) \<le> n_ctx cfg"
  shows "transform_roc cfg X1 X2 X3 = Inr (padded_rows cfg X1 X2 X3)"
proof -
  let ?n = "nat (n_ctx cfg)"
  have fit: "\<forall>(x1, x2, x3) \<in> set (zip X1 (zip X2 X3)).
           length (roc_sequence cfg x1 x2) \<le> ?n \<and> length (roc_sequence cfg x1 x3) \<le> ?n"
    using assms by fastforce
  have len: "length (zip X1 (zip X2 X3)) \<le> length X1" by simp
  have "transform_roc cfg X1 X2 X3
        = (case write_examples cfg (zip X1 (zip X2 X3))
                 (replicate (length X1) (zero_row ?n, zero_row ?n)) of
             Inl e \<Rightarrow> Inl e
           | Inr rows' \<Rightarrow>
               Inr (map (\<lambda>(r0, r1). (set_positions cfg r0, set_positions cfg r1)) rows'))"
    using assms(1) by (simp add: transform_roc_def Let_def)
  also have "\<dots> = Inr (padded_rows cfg X1 X2 X3)"
    unfolding write_examples_fit [OF fit len]
    by (simp add: padded_rows_def padded_row_def set_positions_def zero_row_def case_prod_unfold)
  finally show ?thesis .
qed

lemma fold_max_ge: "y \<le> fold max ys (y::nat)" "x \<in> set ys \<Longrightarrow> x \<le> fold max ys y"
proof -
  have "y \<le> fold max ys y \<and> (\<forall>x \<in> set ys. x \<le> fold max ys y)"
  proof (induction ys arbitrary: y)
    case Nil then show ?case by simp
  next
    case (Cons z zs)
    from Cons.IH [of "max z y"] show ?case by (auto simp: max_def split: if_splits)
  qed
  then show "y \<le> fold max ys y" "x \<in> set ys \<Longrightarrow> x \<le> fold max ys y" by auto
qed

lemma py_max_ge: "py_max xs = Inr m \<Longrightarrow> x \<in> set xs \<Longrightarrow> x \<le> m"
  by (cases xs) (auto simp: py_max_def fold_max_ge)

lemma n_ctx_bound: "2 * (n div 2 - 2) + 3 \<le> (n::int)"
  by presburger

lemma data_prep_fit:
  assumes n: "4 \<le> n_ctx cfg"
    and c: "data_prep_config cfg tr va te = Inr cfg'"
    and d: "d = tr \<or> d = va \<or> d = te"
  shows "transform_roc cfg' (fst d) (fst (snd d)) (snd (snd d))
         = Inr (padded_rows cfg' (fst d) (fst (snd d)) (snd (snd d)))"
proof -
  let ?ml = "n_ctx cfg div 2 - 2"
  let ?all = "pair_lengths ?ml tr @ pair_lengths ?ml va @ pair_lengths ?ml te"
  from c obtain temp where t: "py_max ?all = Inr temp"
    and cfg': "cfg' = cfg\<lparr>max_len := ?ml, n_ctx := min (int temp + 3) (n_ctx cfg)\<rparr>"
    by (auto simp: data_prep_config_def Let_def split: sum.splits)
  have ml: "0 \<le> max_len cfg'" "max_len cfg' = ?ml" using n by (simp_all add: cfg')
  have nn: "0 \<le> n_ctx cfg'" using n by (simp add: cfg')
  have fit: "int (length (roc_sequence cfg' x1 x2)) \<le> n_ctx cfg'
           \<and> int (length (roc_sequence cfg' x1 x3)) \<le> n_ctx cfg'"
    if x: "(x1, x2, x3) \<in> set (zip (fst d) (zip (fst (snd d)) (snd (snd d))))" for x1 x2 x3
  proof -
    let ?k = "length (py_take ?ml x1) + max (length (py_take ?ml x2)) (length (py_take ?ml x3))"
    have "?k \<in> set (pair_lengths ?ml d)"
      using x by (force simp: pair_lengths_def case_prod_unfold image_iff)
    with d have "?k \<in> set ?all" by auto
    from py_max_ge [OF t this] have k: "?k \<le> temp" .
    have b2: "int (length (roc_sequence cfg' x1 x2)) \<le> 2 * ?ml + 3"
      using roc_sequence_bound [OF ml(1), of x1 x2] ml(2) by simp
    have b3: "int (length (roc_sequence cfg' x1 x3)) \<le> 2 * ?ml + 3"
      using roc_sequence_bound [OF ml(1), of x1 x3] ml(2) by simp
    have top: "2 * ?ml + 3 \<le> n_ctx cfg" by (rule n_ctx_bound)
    have l2: "length (roc_sequence cfg' x1 x2) \<le> ?k + 3"
      by (simp add: roc_sequence_length ml(2))
    have l3: "length (roc_sequence cfg' x1 x3) \<le> ?k + 3"
      by (simp add: roc_sequence_length ml(2))
    have "n_ctx cfg' = min (int temp + 3) (n_ctx cfg)" by (simp add: cfg')
    with k b2 b3 top l2 l3 show ?thesis by linarith
  qed
  show ?thesis
    by (rule transform_roc_fit [OF nn]) (use fit in auto)
qed


lemma padded_row_mask:
  "mask_vals (padded_row cfg s) = replicate (length s) 1 @ replicate (nat (n_ctx cfg) - length s) 0"
  by (simp add: padded_row_def)

text \<open>
  Claim C8 (as amended). Let \<open>n_ctx \<ge> 4\<close>. Given \<open>max_len = n_ctx div 2 - 2\<close>, every
  constructed sequence has length at most \<open>2*max_len + 3 \<le> n_ctx\<close>, and \<^verbatim>\<open>transform_roc\<close>
  raises nothing and returns the arrays in which every example sits in its row, followed
  by zeros. Also in \<^verbatim>\<open>data_prep\<close>, which computes \<open>max_len\<close> from the configured \<open>n_ctx\<close>
  and then lowers \<open>n_ctx\<close> to \<open>min (temp + 3) n_ctx\<close>, the three calls of \<^verbatim>\<open>transform_roc\<close>
  raise nothing and return such arrays. The mask of such a row is 1 at exactly the first
  \<open>l\<close> positions, \<open>l\<close> the length of the sequence, and 0 at all later positions.
\<close>

theorem transform_roc_in_bounds:
  assumes "4 \<le> n_ctx cfg"
  shows "(max_len cfg = n_ctx cfg div 2 - 2 \<longrightarrow>
            int (length (roc_sequence cfg x1 x2)) \<le> 2 * max_len cfg + 3
          \<and> 2 * max_len cfg + 3 \<le> n_ctx cfg
          \<and> transform_roc cfg X1 X2 X3 = Inr (padded_rows cfg X1 X2 X3))
       \<and> (\<forall>cfg'. data_prep_config cfg tr va te = Inr cfg' \<longrightarrow>
            data_prep_arrays cfg tr va te
              = Inr (padded_rows cfg' (fst tr) (fst (snd tr)) (snd (snd tr)),
                     padded_rows cfg' (fst va) (fst (snd va)) (snd (snd va)),
                     padded_rows cfg' (fst te) (fst (snd te)) (snd (snd te))))
       \<and> mask_vals (padded_row cfg (roc_sequence cfg x1 x2))
           = replicate (length (roc_sequence cfg x1 x2)) 1
             @ replicate (nat (n_ctx cfg) - length (roc_sequence cfg x1 x2)) 0"
proof (intro conjI impI allI)
  assume ml: "max_len cfg = n_ctx cfg div 2 - 2"
  with assms have ml0: "0 \<le> max_len cfg" by simp
  show top: "2 * max_len cfg + 3 \<le> n_ctx cfg" unfolding ml by (rule n_ctx_bound)
  show "int (length (roc_sequence cfg x1 x2)) \<le> 2 * max_len cfg + 3"
    using ml0 by (rule roc_sequence_bound)
  have "int (length (roc_sequence cfg a b)) \<le> n_ctx cfg" for a b
    using roc_sequence_bound [OF ml0, of a b] top by simp
  then show "transform_roc cfg X1 X2 X3 = Inr (padded_rows cfg X1 X2 X3)"
    using assms by (intro transform_roc_fit) auto
next
  fix cfg'
  assume c: "data_prep_config cfg tr va te = Inr cfg'"
  show "data_prep_arrays cfg tr va te
              = Inr (padded_rows cfg' (fst tr) (fst (snd tr)) (snd (snd tr)),
                     padded_rows cfg' (fst va) (fst (snd va)) (snd (snd va)),
                     padded_rows cfg' (fst te) (fst (snd te)) (snd (snd te)))"
    by (simp add: data_prep_arrays_def c data_prep_fit [OF assms c])
next
  show "mask_vals (padded_row cfg (roc_sequence cfg x1 x2))
           = replicate (length (roc_sequence cfg x1 x2)) 1
             @ replicate (nat (n_ctx cfg) - length (roc_sequence cfg x1 x2)) 0"
    by (rule padded_row_mask)
qed

theorem transform_roc_in_bounds_witness:
  "(4::int) \<le> 8 \<and> (2::int) = 8 div 2 - 2
   \<and> transform_roc \<lparr>n_ctx = 8, max_len = 2, start_token = 100, delimiter_token = 101,
                     clf_token = 102, n_vocab = 100, n_special = 3\<rparr> [[1, 2, 3]] [[4, 5]] [[6]]
       = Inr [(\<lparr>tokens = [100, 1, 2, 101, 4, 5, 102, 0],
                 positions = [103, 104, 105, 106, 107, 108, 109, 110],
                 mask_vals = [1, 1, 1, 1, 1, 1, 1, 0]\<rparr>,
               \<lparr>tokens = [100, 1, 2, 101, 6, 102, 0, 0],
                 positions = [103, 104, 105, 106, 107, 108, 109, 110],
                 mask_vals = [1, 1, 1, 1, 1, 1, 0, 0]\<rparr>)]
   \<and> data_prep_config \<lparr>n_ctx = 16, max_len = 0, start_token = 100, delimiter_token = 101,
                   clf_token = 102, n_vocab = 100, n_special = 3\<rparr>
             ([[1, 2, 3]], [[4, 5]], [[6]]) ([[1]], [[]], [[2]]) ([], [], [])
       = Inr \<lparr>n_ctx = 8, max_len = 6, start_token = 100, delimiter_token = 101,
                   clf_token = 102, n_vocab = 100, n_special = 3\<rparr>
   \<and> data_prep_arrays \<lparr>n_ctx = 16, max_len = 0, start_token = 100, delimiter_token = 101,
                   clf_token = 102, n_vocab = 100, n_special = 3\<rparr>
             ([[1, 2, 3]], [[4, 5]], [[6]]) ([[1]], [[]], [[2]]) ([], [], [])
       = Inr ([(\<lparr>tokens = [100, 1, 2, 3, 101, 4, 5, 102],
                 positions = [103, 104, 105, 106, 107, 108, 109, 110],
                 mask_vals = [1, 1, 1, 1, 1, 1, 1, 1]\<rparr>,
                \<lparr>tokens = [100, 1, 2, 3, 101, 6, 102, 0],
                 positions = [103, 104, 105, 106, 107, 108, 109, 110],
                 mask_vals = [1, 1, 1, 1, 1, 1, 1, 0]\<rparr>)],
              [(\<lparr>tokens = [100, 1, 101, 102, 0, 0, 0, 0],
                 positions = [103, 104, 105, 106, 107, 108, 109, 110],
                 mask_vals = [1, 1, 1, 1, 0, 0, 0, 0]\<rparr>,
                \<lparr>tokens = [100, 1, 101, 2, 102, 0, 0, 0],
                 positions = [103, 104, 105, 106, 107, 108, 109, 110],
                 mask_vals = [1, 1, 1, 1, 1, 0, 0, 0]\<rparr>)],
              [])"
proof -
  let ?c = "\<lparr>n_ctx = 8, max_len = 2, start_token = 100, delimiter_token = 101,
             clf_token = 102, n_vocab = 100, n_special = 3\<rparr>"
  let ?cz = "\<lparr>n_ctx = 16, max_len = 0, start_token = 100, delimiter_token = 101,
             clf_token = 102, n_vocab = 100, n_special = 3\<rparr>"
  let ?cp = "\<lparr>n_ctx = 8, max_len = 6, start_token = 100, delimiter_token = 101,
             clf_token = 102, n_vocab = 100, n_special = 3\<rparr>"
  let ?tr = "([[1, 2, 3]], [[4, 5]], [[6]]) :: roc_data"
  let ?va = "([[1]], [[]], [[2]]) :: roc_data"
  let ?te = "([], [], []) :: roc_data"
  have h1: "4 \<le> n_ctx ?c" and h2: "max_len ?c = n_ctx ?c div 2 - 2" and h3: "4 \<le> n_ctx ?cz"
    by simp_all
  have cfg: "data_prep_config ?cz ?tr ?va ?te = Inr ?cp"
    by code_simp
  have p1: "padded_rows ?c [[1, 2, 3]] [[4, 5]] [[6]]
       = [(\<lparr>tokens = [100, 1, 2, 101, 4, 5, 102, 0],
                 positions = [103, 104, 105, 106, 107, 108, 109, 110],
                 mask_vals = [1, 1, 1, 1, 1, 1, 1, 0]\<rparr>,
               \<lparr>tokens = [100, 1, 2, 101, 6, 102, 0, 0],
                 positions = [103, 104, 105, 106, 107, 108, 109, 110],
                 mask_vals = [1, 1, 1, 1, 1, 1, 0, 0]\<rparr>)]"
    by code_simp
  have p2: "padded_rows ?cp [[1, 2, 3]] [[4, 5]] [[6]]
       = [(\<lparr>tokens = [100, 1, 2, 3, 101, 4, 5, 102],
                 positions = [103, 104, 105, 106, 107, 108, 109, 110],
                 mask_vals = [1, 1, 1, 1, 1, 1, 1, 1]\<rparr>,
                \<lparr>tokens = [100, 1, 2, 3, 101, 6, 102, 0],
                 positions = [103, 104, 105, 106, 107, 108, 109, 110],
                 mask_vals = [1, 1, 1, 1, 1, 1, 1, 0]\<rparr>)]"
    by code_simp
  have p3: "padded_rows ?cp [[1]] [[]] [[2]]
       = [(\<lparr>tokens = [100, 1, 101, 102, 0, 0, 0, 0],
                 positions = [103, 104, 105, 106, 107, 108, 109, 110],
                 mask_vals = [1, 1, 1, 1, 0, 0, 0, 0]\<rparr>,
                \<lparr>tokens = [100, 1, 101, 2, 102, 0, 0, 0],
                 positions = [103, 104, 105, 106, 107, 108, 109, 110],
                 mask_vals = [1, 1, 1, 1, 1, 0, 0, 0]\<rparr>)]"
    by code_simp
  have p4: "padded_rows ?cp [] [] [] = []"
    by (simp add: padded_rows_def)
  from transform_roc_in_bounds [OF h1, of _ _ "[[1, 2, 3]]" "[[4, 5]]" "[[6]]"] h2
  have a: "transform_roc ?c [[1, 2, 3]] [[4, 5]] [[6]] = Inr (padded_rows ?c [[1, 2, 3]] [[4, 5]] [[6]])"
    by blast
  from transform_roc_in_bounds [OF h3, of _ _ _ _ _ ?tr ?va ?te] cfg
  have b: "data_prep_arrays ?cz ?tr ?va ?te
           = Inr (padded_rows ?cp (fst ?tr) (fst (snd ?tr)) (snd (snd ?tr)),
                  padded_rows ?cp (fst ?va) (fst (snd ?va)) (snd (snd ?va)),
                  padded_rows ?cp (fst ?te) (fst (snd ?te)) (snd (snd ?te)))"
    by blast
  show ?thesis
    using a b cfg by (simp add: p1 p2 p3 p4)
qed

text \<open>
  The claim as stated, for every \<open>n_ctx\<close>, fails below 4: there \<open>max_len\<close> is negative and
  the slice \<^verbatim>\<open>x1[:max_len]\<close> drops elements from the end instead of keeping at most
  \<open>max_len\<close>. With \<open>n_ctx = 3\<close>, \<open>max_len = -1\<close>, the sequence built from \<open>[1, 2, 3]\<close> and
  \<open>[4, 5]\<close> has 6 tokens, more than \<open>2*max_len + 3 = 1\<close> and more than \<open>n_ctx\<close>, and the
  assignment into the row of 3 slots raises ValueError, also when \<^verbatim>\<open>data_prep\<close> is run
  with \<open>n_ctx = 3\<close> on this example.
\<close>

theorem transform_roc_in_bounds_counterexample:
  "(- 1 :: int) = 3 div 2 - 2
   \<and> roc_sequence \<lparr>n_ctx = 3, max_len = - 1, start_token = 100, delimiter_token = 101,
                    clf_token = 102, n_vocab = 100, n_special = 3\<rparr> [1, 2, 3] [4, 5]
       = [100, 1, 2, 101, 4, 102]
   \<and> \<not> int (length [100, 1, 2, 101, 4, 102 :: int]) \<le> 2 * (- 1) + 3
   \<and> \<not> int (length [100, 1, 2, 101, 4, 102 :: int]) \<le> 3
   \<and> transform_roc \<lparr>n_ctx = 3, max_len = - 1, start_token = 100, delimiter_token = 101,
                     clf_token = 102, n_vocab = 100, n_special = 3\<rparr> [[1, 2, 3]] [[4, 5]] [[6]]
       = Inl ValueError
   \<and> data_prep_arrays \<lparr>n_ctx = 3, max_len = 0, start_token = 100, delimiter_token = 101,
                        clf_token = 102, n_vocab = 100, n_special = 3\<rparr>
         ([[1, 2, 3]], [[4, 5]], [[6]]) ([], [], []) ([], [], []) = Inl ValueError"
proof -
  have "data_prep_arrays \<lparr>n_ctx = 3, max_len = 0, start_token = 100, delimiter_token = 101,
                        clf_token = 102, n_vocab = 100, n_special = 3\<rparr>
         ([[1, 2, 3]], [[4, 5]], [[6]]) ([], [], []) ([], [], []) = Inl ValueError"
    by code_simp
  moreover have "transform_roc \<lparr>n_ctx = 3, max_len = - 1, start_token = 100, delimiter_token = 101,
                     clf_token = 102, n_vocab = 100, n_special = 3\<rparr> [[1, 2, 3]] [[4, 5]] [[6]]
       = Inl ValueError"
    by code_simp
  ultimately show ?thesis
    by (simp add: roc_sequence_def py_take_def)
qed

subsection \<open>The causal mask\<close>

lemma at4_tabulate4:
  "a < n0 \<Longrightarrow> h < n1 \<Longrightarrow> i < n2 \<Longrightarrow> j < n3 \<Longrightarrow> at4 (tabulate4 n0 n1 n2 n3 f) a h i j = f a h i j"
  by (simp add: at4_def tabulate4_def)

lemma dims_tabulate4:
  "d0 (tabulate4 n0 n1 n2 n3 f) = n0" "d1 (tabulate4 n0 n1 n2 n3 f) = n1"
  "d2 (tabulate4 n0 n1 n2 n3 f) = n2" "d3 (tabulate4 n0 n1 n2 n3 f) = n3"
  by (simp_all add: tabulate4_def)

lemma bdim_simps:
  "bdim n n = Some n" "bdim n 1 = Some n" "bdim 1 n = Some n"
  "bdim n (Suc 0) = Some n" "bdim (Suc 0) n = Some n"
  by (auto simp: bdim_def)

lemma bidx_simps: "i < n \<Longrightarrow> bidx n i = i" "bidx 1 i = 0" "bidx (Suc 0) i = 0"
  by (auto simp: bidx_def)

lemma tf_binop_batch_broadcast:
  assumes "d2 x = n" "d3 x = n" "d0 y = 1" "d1 y = 1" "d2 y = n" "d3 y = n"
  shows "\<exists>r. tf_binop f x y = Inr r \<and> d0 r = d0 x \<and> d1 r = d1 x \<and> d2 r = n \<and> d3 r = n
           \<and> (\<forall>a<d0 x. \<forall>h<d1 x. \<forall>i<n. \<forall>j<n.
                 at4 r a h i j = f (at4 x a h i j) (at4 y 0 0 i j))"
  using assms
  by (simp add: tf_binop_def bdim_simps dims_tabulate4 at4_tabulate4 bidx_simps)

lemma band_lower_entries:
  "d0 (band_lower n) = 1" "d1 (band_lower n) = 1" "d2 (band_lower n) = n" "d3 (band_lower n) = n"
  "i < n \<Longrightarrow> j < n \<Longrightarrow> at4 (band_lower n) 0 0 i j = (if j \<le> i then 1 else 0)"
  by (simp_all add: band_lower_def dims_tabulate4 at4_tabulate4)

lemma tf_map_entries:
  "d0 (tf_map g x) = d0 x" "d1 (tf_map g x) = d1 x" "d2 (tf_map g x) = d2 x" "d3 (tf_map g x) = d3 x"
  "a < d0 x \<Longrightarrow> h < d1 x \<Longrightarrow> i < d2 x \<Longrightarrow> j < d3 x \<Longrightarrow> at4 (tf_map g x) a h i j = g (at4 x a h i j)"
  by (simp_all add: tf_map_def dims_tabulate4 at4_tabulate4)

lemma mask_entries:
  assumes sq: "d2 w = d3 w"
  shows "\<exists>r. mask_attn_weights w = Inr r
           \<and> d0 r = d0 w \<and> d1 r = d1 w \<and> d2 r = d2 w \<and> d3 r = d3 w
           \<and> (\<forall>a<d0 w. \<forall>h<d1 w. \<forall>i<d3 w. \<forall>j<d3 w.
                 at4 r a h i j = (if i < j then - 1000000000 else at4 w a h i j))"
proof -
  let ?n = "d3 w"
  let ?b = "band_lower ?n"
  let ?t = "tf_map (\<lambda>v. - 1000000000 * v) (tf_map (\<lambda>v. 1 - v) ?b)"
  from tf_binop_batch_broadcast [of w ?n ?b "(*)", OF sq refl band_lower_entries(1-4)]
  obtain wb where wb: "tf_binop (*) w ?b = Inr wb" "d0 wb = d0 w" "d1 wb = d1 w"
      "d2 wb = ?n" "d3 wb = ?n"
      "\<forall>a<d0 w. \<forall>h<d1 w. \<forall>i<?n. \<forall>j<?n. at4 wb a h i j = at4 w a h i j * at4 ?b 0 0 i j"
    by blast
  have t: "d0 ?t = 1" "d1 ?t = 1" "d2 ?t = ?n" "d3 ?t = ?n"
    by (simp_all add: tf_map_entries band_lower_entries)
  from tf_binop_batch_broadcast [of wb ?n ?t "(+)", OF wb(4,5) t]
  obtain r where r: "tf_binop (+) wb ?t = Inr r" "d0 r = d0 wb" "d1 r = d1 wb"
      "d2 r = ?n" "d3 r = ?n"
      "\<forall>a<d0 wb. \<forall>h<d1 wb. \<forall>i<?n. \<forall>j<?n. at4 r a h i j = at4 wb a h i j + at4 ?t 0 0 i j"
    by blast
  have te: "at4 ?t 0 0 i j = - 1000000000 * (1 - (if j \<le> i then 1 else 0))"
    if "i < ?n" "j < ?n" for i j
    using that by (simp add: tf_map_entries band_lower_entries)
  have "at4 r a h i j = (if i < j then - 1000000000 else at4 w a h i j)"
    if "a < d0 w" "h < d1 w" "i < ?n" "j < ?n" for a h i j
    using that r(6) wb(2,3,6) te [OF that(3,4)] by (simp add: band_lower_entries)
  moreover have "mask_attn_weights w = Inr r"
    by (simp add: mask_attn_weights_def Let_def wb(1) r(1))
  ultimately show ?thesis using r wb sq by auto
qed

lemma softmax4_entry:
  "a < d0 w \<Longrightarrow> h < d1 w \<Longrightarrow> i < d2 w \<Longrightarrow> j < d3 w \<Longrightarrow>
   at4 (softmax4 w) a h i j = exp (at4 w a h i j) / (\<Sum>k<d3 w. exp (at4 w a h i k))"
  by (simp add: softmax4_def at4_tabulate4 interv_sum_list_conv_sum_set_nat atLeast0LessThan)

lemma softmax_masked_bound:
  fixes r :: tensor4
  assumes "a < d0 r" "h < d1 r" "i < d2 r" "j < d3 r" "k < d3 r"
  shows "at4 (softmax4 r) a h i j \<le> exp (at4 r a h i j - at4 r a h i k)"
proof -
  let ?S = "\<Sum>k<d3 r. exp (at4 r a h i k)"
  have "exp (at4 r a h i k) \<le> ?S"
    using assms(5) by (intro member_le_sum) auto
  moreover have pos: "0 < exp (at4 r a h i k)" by simp
  ultimately have "0 < ?S" by (rule less_le_trans [rotated])
  with pos have "0 < ?S * exp (at4 r a h i k)" by (intro mult_pos_pos)
  with \<open>exp (at4 r a h i k) \<le> ?S\<close>
  have "exp (at4 r a h i j) / ?S \<le> exp (at4 r a h i j) / exp (at4 r a h i k)"
    by (intro divide_left_mono) auto
  then show ?thesis
    using assms by (simp add: softmax4_entry exp_diff)
qed

lemma exp_minus_bound: "0 \<le> x \<Longrightarrow> exp (- x) \<le> 1 / (1 + (x::real))"
proof -
  assume x: "0 \<le> x"
  have "1 + x \<le> exp x" by (rule exp_ge_add_one_self)
  then have "1 / exp x \<le> 1 / (1 + x)" using x by (intro divide_left_mono) auto
  then show ?thesis by (simp add: exp_minus inverse_eq_divide)
qed

text \<open>
  Claim C3 (as amended). For attention logits of shape \<open>[..., n, n]\<close> the masking sets
  entry \<open>(i, j)\<close> to \<open>-1e9\<close> for every key index \<open>j > i\<close> and leaves it equal to its input
  for every \<open>j \<le> i\<close>. After softmax, the probability at a masked position \<open>(i, j)\<close> is at
  most \<open>exp (-1e9 - L)\<close> for every unmasked logit \<open>L\<close> of row \<open>i\<close>; it is at most \<open>2e-9\<close>,
  under the machine epsilon of single precision, whenever some unmasked logit of the row
  is at least \<open>-5e8\<close>.
\<close>

theorem causal_mask:
  assumes "d2 w = d3 w"
  shows "\<exists>r. mask_attn_weights w = Inr r \<and> attn_probs w = Inr (softmax4 r)
           \<and> d0 r = d0 w \<and> d1 r = d1 w \<and> d2 r = d2 w \<and> d3 r = d3 w
           \<and> (\<forall>a<d0 w. \<forall>h<d1 w. \<forall>i<d3 w. \<forall>j<d3 w.
                 at4 r a h i j = (if i < j then - 1000000000 else at4 w a h i j)
               \<and> (i < j \<longrightarrow> (\<forall>k\<le>i.
                     at4 (softmax4 r) a h i j \<le> exp (- 1000000000 - at4 w a h i k)
                   \<and> (- 500000000 \<le> at4 w a h i k \<longrightarrow>
                        at4 (softmax4 r) a h i j \<le> 1 / 500000000))))"
proof -
  from mask_entries [OF assms] obtain r where r: "mask_attn_weights w = Inr r"
      "d0 r = d0 w" "d1 r = d1 w" "d2 r = d2 w" "d3 r = d3 w"
      and e: "\<And>a h i j. a < d0 w \<Longrightarrow> h < d1 w \<Longrightarrow> i < d3 w \<Longrightarrow> j < d3 w \<Longrightarrow>
                 at4 r a h i j = (if i < j then - 1000000000 else at4 w a h i j)"
    by blast
  have b: "at4 (softmax4 r) a h i j \<le> exp (- 1000000000 - at4 w a h i k)
         \<and> (- 500000000 \<le> at4 w a h i k \<longrightarrow> at4 (softmax4 r) a h i j \<le> 1 / 500000000)"
    if "a < d0 w" "h < d1 w" "i < d3 w" "j < d3 w" "i < j" "k \<le> i" for a h i j k
  proof -
    have k: "k < d3 w" using that by simp
    have "at4 (softmax4 r) a h i j \<le> exp (at4 r a h i j - at4 r a h i k)"
      using that k r assms by (intro softmax_masked_bound) simp_all
    also have "at4 r a h i j = - 1000000000" using that e by simp
    also have "at4 r a h i k = at4 w a h i k" using that k e [of a h i k] by simp
    finally have 1: "at4 (softmax4 r) a h i j \<le> exp (- 1000000000 - at4 w a h i k)" .
    have "at4 (softmax4 r) a h i j \<le> 1 / 500000000" if lb: "- 500000000 \<le> at4 w a h i k"
    proof -
      have "exp (- 1000000000 - at4 w a h i k) \<le> exp (- (500000000::real))"
        using lb by simp
      also have "\<dots> \<le> 1 / (1 + 500000000)" by (rule exp_minus_bound) simp
      also have "\<dots> \<le> 1 / 500000000" by simp
      finally show ?thesis using 1 by simp
    qed
    with 1 show ?thesis by simp
  qed
  have "attn_probs w = Inr (softmax4 r)" by (simp add: attn_probs_def r(1))
  with r e b show ?thesis by (intro exI [of _ r]) simp
qed

theorem causal_mask_witness:
  "d2 \<lparr>d0 = 1, d1 = 1, d2 = 2, d3 = 2, entries = [[[[1, 2], [3, 4]]]]\<rparr>
     = d3 \<lparr>d0 = 1, d1 = 1, d2 = 2, d3 = 2, entries = [[[[1, 2], [3, 4]]]]\<rparr>
   \<and> mask_attn_weights \<lparr>d0 = 1, d1 = 1, d2 = 2, d3 = 2, entries = [[[[1, 2], [3, 4]]]]\<rparr>
       = Inr \<lparr>d0 = 1, d1 = 1, d2 = 2, d3 = 2, entries = [[[[1, - 1000000000], [3, 4]]]]\<rparr>
   \<and> at4 (softmax4 \<lparr>d0 = 1, d1 = 1, d2 = 2, d3 = 2,
                      entries = [[[[1, - 1000000000], [3, 4]]]]\<rparr>) 0 0 0 1
       \<le> 1 / 500000000"
proof -
  let ?w = "\<lparr>d0 = 1, d1 = 1, d2 = 2, d3 = 2, entries = [[[[1, 2], [3, 4]]]]\<rparr>"
  let ?m = "\<lparr>d0 = 1, d1 = 1, d2 = 2, d3 = 2, entries = [[[[1, - 1000000000], [3, 4]]]]\<rparr>"
  have sq: "d2 ?w = d3 ?w" by simp
  have ev: "mask_attn_weights ?w = Inr ?m" by code_simp
  have w00: "- 500000000 \<le> at4 ?w 0 0 0 0" by (simp add: at4_def)
  from causal_mask [OF sq] obtain r where r: "mask_attn_weights ?w = Inr r"
    and b: "\<forall>a<d0 ?w. \<forall>h<d1 ?w. \<forall>i<d3 ?w. \<forall>j<d3 ?w.
                 at4 r a h i j = (if i < j then - 1000000000 else at4 ?w a h i j)
               \<and> (i < j \<longrightarrow> (\<forall>k\<le>i.
                     at4 (softmax4 r) a h i j \<le> exp (- 1000000000 - at4 ?w a h i k)
                   \<and> (- 500000000 \<le> at4 ?w a h i k \<longrightarrow>
                        at4 (softmax4 r) a h i j \<le> 1 / 500000000)))"
    by blast
  from r ev have eq: "r = ?m" by simp
  have i: "(0::nat) < d0 ?w" "(0::nat) < d1 ?w" "(0::nat) < d3 ?w" "(1::nat) < d3 ?w"
    by simp_all
  have lt: "(0::nat) < 1" and le: "(0::nat) \<le> 0" by simp_all
  note b1 = b [rule_format, OF i, THEN conjunct2, rule_format, OF lt le, THEN conjunct2,
               rule_format, OF w00]
  from b1 have "at4 (softmax4 ?m) 0 0 0 1 \<le> 1 / 500000000" unfolding eq .
  with sq ev show ?thesis by (intro conjI)
qed

text \<open>
  The claim as stated, for every tensor of logits, fails in its last part: the mask is a
  finite constant, and logits that are themselves as low leave the masked positions
  their share. In a row whose only unmasked logit is \<open>-1e9\<close>, the masked position gets the
  probability 1/2.
\<close>

theorem causal_mask_counterexample:
  "attn_probs \<lparr>d0 = 1, d1 = 1, d2 = 2, d3 = 2,
              entries = [[[[- 1000000000, 5], [- 1000000000, - 1000000000]]]]\<rparr>
     = Inr (softmax4 \<lparr>d0 = 1, d1 = 1, d2 = 2, d3 = 2,
              entries = [[[[- 1000000000, - 1000000000], [- 1000000000, - 1000000000]]]]\<rparr>)
   \<and> at4 (softmax4 \<lparr>d0 = 1, d1 = 1, d2 = 2, d3 = 2,
              entries = [[[[- 1000000000, - 1000000000], [- 1000000000, - 1000000000]]]]\<rparr>)
         0 0 0 1 = 1 / 2"
proof -
  have "mask_attn_weights \<lparr>d0 = 1, d1 = 1, d2 = 2, d3 = 2,
              entries = [[[[- 1000000000, 5], [- 1000000000, - 1000000000]]]]\<rparr>
         = Inr \<lparr>d0 = 1, d1 = 1, d2 = 2, d3 = 2,
              entries = [[[[- 1000000000, - 1000000000], [- 1000000000, - 1000000000]]]]\<rparr>"
    by code_simp
  moreover have "at4 (softmax4 \<lparr>d0 = 1, d1 = 1, d2 = 2, d3 = 2,
              entries = [[[[- 1000000000, - 1000000000], [- 1000000000, - 1000000000]]]]\<rparr>) 0 0 0 1
           = 1 / 2"
    by (simp add: softmax4_def at4_def tabulate4_def upt_conv_Cons)
  ultimately show ?thesis by (simp only: attn_probs_def sum.case simp_thms)
qed

subsection \<open>The language-model loss\<close>

lemma collect_all_Inr: "collect (map (\<lambda>x. Inr (g x)) xs) = Inr (map g xs)"
  by (induction xs) simp_all

lemma collect_map_Inr:
  "(\<And>x. x \<in> set xs \<Longrightarrow> f x = Inr (g x)) \<Longrightarrow> collect (map f xs) = Inr (map g xs)"
  by (induction xs) simp_all

lemma reshape_concat:
  assumes "\<And>xs. xs \<in> set xss \<Longrightarrow> length xs = c"
  shows "map (\<lambda>r. take c (drop (r * c) (concat xss))) [0..<length xss] = xss"
  using assms
proof (induction xss rule: rev_induct)
  case Nil then show ?case by simp
next
  case (snoc ys xss)
  have len: "length (concat xss) = length xss * c"
    using snoc.prems by (induction xss) auto
  have ys: "length ys = c" using snoc.prems by simp
  have "map (\<lambda>r. take c (drop (r * c) (concat xss @ ys))) [0..<length xss]
        = map (\<lambda>r. take c (drop (r * c) (concat xss))) [0..<length xss]"
  proof (intro map_cong refl)
    fix r assume "r \<in> set [0..<length xss]"
    then have "Suc r \<le> length xss" by simp
    then have "Suc r * c \<le> length xss * c" by (rule mult_le_mono1)
    then have "r * c + c \<le> length (concat xss)" by (simp add: len)
    then show "take c (drop (r * c) (concat xss @ ys)) = take c (drop (r * c) (concat xss))"
      by simp
  qed
  also have "\<dots> = xss" using snoc by simp
  finally show ?case using len ys by simp
qed

lemma tf_reshape2_concat:
  assumes "\<And>xs. xs \<in> set xss \<Longrightarrow> length xs = c"
  shows "tf_reshape2 (length xss) c (concat xss) = Inr xss"
proof -
  have "length (concat xss) = length xss * c"
    using assms by (induction xss) auto
  then show ?thesis by (simp add: tf_reshape2_def reshape_concat [OF assms])
qed

lemma zip_concat:
  "list_all2 (\<lambda>xs ys. length xs = length ys) xss yss \<Longrightarrow>
   zip (concat xss) (concat yss) = concat (map2 zip xss yss)"
  by (induction rule: list_all2_induct) simp_all

lemma list_all2_same_length:
  assumes "length xs = length ys" "\<And>i. i < length xs \<Longrightarrow> P (xs ! i) (ys ! i)"
  shows "list_all2 P xs ys"
  using assms by (simp add: list_all2_conv_all_nth)

lemma model_lm_losses_flat:
  assumes nc: "1 \<le> nc"
    and lh: "length h = length X" and lm: "length M = length X"
    and hb: "\<And>b. b < length X \<Longrightarrow> length (h ! b) = nc"
    and xb: "\<And>b. b < length X \<Longrightarrow> length (X ! b) = nc"
    and mb: "\<And>b. b < length X \<Longrightarrow> length (M ! b) = nc"
    and emb: "\<And>b t e. b < length X \<Longrightarrow> t < nc \<Longrightarrow> e \<in> set we \<Longrightarrow> length (h ! b ! t) = length e"
    and tok: "\<And>b t. b < length X \<Longrightarrow> 1 \<le> t \<Longrightarrow> t < nc \<Longrightarrow>
                 0 \<le> fst (X ! b ! t) \<and> fst (X ! b ! t) < int (length we)"
  shows "model_lm_losses nc h we X M
         = Inr (map2 (\<lambda>l m. sum_list (map2 (*) l (tl m)) / sum_list (tl m))
                  (map2 (seq_losses we) h X) M)"
proof -
  let ?lm_h = "concat (map butlast h)"
  let ?labels = "concat (map (\<lambda>x. map fst (tl x)) X)"
  have hset: "length hb' = nc" if "hb' \<in> set h" for hb'
    using that hb lh by (auto simp: in_set_conv_nth)
  have xset: "length xb' = nc" if "xb' \<in> set X" for xb'
    using that xb by (auto simp: in_set_conv_nth)
  have shape: "list_all (\<lambda>x. list_all (\<lambda>w. length x = length w) we) ?lm_h"
  proof -
    have "length v = length e" if "hb' \<in> set h" "v \<in> set (butlast hb')" "e \<in> set we" for hb' v e
    proof -
      from that(1) obtain b where b: "b < length X" "hb' = h ! b"
        using lh by (auto simp: in_set_conv_nth)
      from that(2) obtain t where t: "t < length (butlast hb')" "v = butlast hb' ! t"
        by (auto simp: in_set_conv_nth)
      with b hb [OF b(1)] have "t < nc" "v = h ! b ! t" by (simp_all add: nth_butlast)
      with emb [OF b(1) this(1) that(3)] show ?thesis by simp
    qed
    then show ?thesis by (auto simp: list_all_iff)
  qed
  then have mm: "matmul_transpose_b ?lm_h we = Inr (map (\<lambda>x. map (dot x) we) ?lm_h)"
    by (simp add: matmul_transpose_b_def)
  let ?logits = "map (\<lambda>x. map (dot x) we) ?lm_h"
  have la2: "list_all2 (\<lambda>xs ys. length xs = length ys)
               (map (\<lambda>hb. map (\<lambda>x. map (dot x) we) (butlast hb)) h)
               (map (\<lambda>x. map fst (tl x)) X)"
    using lh hb xb by (intro list_all2_same_length) simp_all
  have logits_concat: "?logits = concat (map (\<lambda>hb. map (\<lambda>x. map (dot x) we) (butlast hb)) h)"
    by (simp add: map_concat comp_def)
  have z: "zip ?logits ?labels
           = concat (map2 zip (map (\<lambda>hb. map (\<lambda>x. map (dot x) we) (butlast hb)) h)
                              (map (\<lambda>x. map fst (tl x)) X))"
    unfolding logits_concat by (rule zip_concat [OF la2])
  have len: "length ?logits = length ?labels"
    using la2 unfolding logits_concat by (induction rule: list_all2_induct) simp_all
  have inr: "(case p of (l, y) \<Rightarrow> xent l y)
             = Inr (case p of (l, y) \<Rightarrow> ln (sum_list (map exp l)) - l ! nat y)"
    if "p \<in> set (zip ?logits ?labels)" for p
  proof -
    obtain l y where p: "p = (l, y)" by (cases p)
    from that [unfolded z] obtain q where q: "q \<in> set (zip (map (\<lambda>hb. map (\<lambda>x. map (dot x) we) (butlast hb)) h)
                              (map (\<lambda>x. map fst (tl x)) X))" "p \<in> set (zip (fst q) (snd q))"
      by (auto simp: case_prod_unfold)
    from q(1) obtain b where b: "b < length X" "fst q = map (\<lambda>x. map (dot x) we) (butlast (h ! b))"
        "snd q = map fst (tl (X ! b))"
      using lh by (auto simp: in_set_conv_nth)
    from q(2) b hb [OF b(1)] xb [OF b(1)] obtain t where t: "t < nc - 1"
        "l = map (dot (h ! b ! t)) we" "y = fst (X ! b ! Suc t)"
      unfolding p by (auto simp: in_set_conv_nth nth_butlast nth_tl)
    from tok [OF b(1), of "Suc t"] t have "0 \<le> y \<and> y < int (length l)" by simp
    then show ?thesis by (simp add: p xent_def)
  qed
  have ce: "sparse_softmax_cross_entropy ?logits ?labels
          = Inr (map (\<lambda>(l, y). ln (sum_list (map exp l)) - l ! nat y) (zip ?logits ?labels))"
    unfolding sparse_softmax_cross_entropy_def using len
    by (simp add: collect_map_Inr [OF inr])
  have flat: "map (\<lambda>(l, y). ln (sum_list (map exp l)) - l ! nat y) (zip ?logits ?labels)
              = concat (map2 (seq_losses we) h X)"
    unfolding z by (simp add: map_concat seq_losses_def zip_map1 zip_map2 comp_def case_prod_unfold
          map_zip_map map_zip_map2)
  have rows: "length l = nc - 1" if "l \<in> set (map2 (seq_losses we) h X)" for l
  proof -
    from that obtain b where "b < length X" "l = seq_losses we (h ! b) (X ! b)"
      using lh by (auto simp: in_set_conv_nth)
    with hb xb show ?thesis by (simp add: seq_losses_def)
  qed
  have rs: "tf_reshape2 (length X) (nc - 1) (concat (map2 (seq_losses we) h X))
            = Inr (map2 (seq_losses we) h X)"
    using tf_reshape2_concat [of "map2 (seq_losses we) h X" "nc - 1", OF rows] lh by simp
  have ma: "list_all2 (\<lambda>l m. length l = length (tl m)) (map2 (seq_losses we) h X) M"
    using lh lm hb xb mb by (intro list_all2_same_length) (simp_all add: seq_losses_def)
  show ?thesis
    using rs ma by (simp add: model_lm_losses_def Let_def mm ce flat masked_average_def)
qed

lemma sum_list_tl:
  "sum_list (tl (m :: real list)) = (\<Sum>t = 1..<length m. m ! t)"
proof (cases m)
  case Nil then show ?thesis by simp
next
  case (Cons x xs)
  have "sum_list xs = (\<Sum>i = 0..<length xs. xs ! i)"
    using sum_list_sum_nth [of xs] by (simp add: atLeast0LessThan)
  also have "\<dots> = (\<Sum>i = 0..<length xs. (x # xs) ! Suc i)" by simp
  also have "\<dots> = (\<Sum>t = Suc 0..<Suc (length xs). (x # xs) ! t)"
    by (rule sum.shift_bounds_Suc_ivl [symmetric])
  finally show ?thesis by (simp add: Cons)
qed

lemma sum_list_map2_tl:
  assumes "length l = length m - 1"
  shows "sum_list (map2 (*) l (tl (m :: real list))) = (\<Sum>t = 1..<length m. l ! (t - 1) * m ! t)"
proof (cases m)
  case Nil then show ?thesis by simp
next
  case (Cons x xs)
  with assms have ll: "length l = length xs" by simp
  have "sum_list (map2 (*) l xs) = (\<Sum>i = 0..<length xs. map2 (*) l xs ! i)"
    using sum_list_sum_nth [of "map2 (*) l xs"] ll by (simp add: atLeast0LessThan)
  also have "\<dots> = (\<Sum>i = 0..<length xs. l ! (Suc i - 1) * (x # xs) ! Suc i)"
    using ll by (intro sum.cong refl) simp
  also have "\<dots> = (\<Sum>t = Suc 0..<Suc (length xs). l ! (t - 1) * (x # xs) ! t)"
    by (rule sum.shift_bounds_Suc_ivl [symmetric])
  finally show ?thesis by (simp add: Cons)
qed

lemma seq_losses_nth:
  assumes "length hb = nc" "length xb = nc" "1 \<le> t" "t < nc"
    "0 \<le> fst (xb ! t)" "fst (xb ! t) < int (length we)"
  shows "seq_losses we hb xb ! (t - 1)
         = ln (\<Sum>v<length we. exp (dot (hb ! (t - 1)) (we ! v)))
           - dot (hb ! (t - 1)) (we ! nat (fst (xb ! t)))"
proof -
  have "(\<Sum>x\<leftarrow>we. exp (dot (hb ! (t - 1)) x)) = (\<Sum>v<length we. exp (dot (hb ! (t - 1)) (we ! v)))"
    using sum_list_sum_nth [of "map (\<lambda>x. exp (dot (hb ! (t - 1)) x)) we"]
    by (simp add: atLeast0LessThan)
  moreover have "nat (fst (xb ! t)) < length we" using assms by simp
  ultimately show ?thesis
    using assms by (simp add: seq_losses_def nth_butlast nth_tl comp_def)
qed

lemma dot_sum_nth:
  assumes "length u = length v"
  shows "dot u v = (\<Sum>k<length u. u ! k * v ! k)"
proof -
  have "dot u v = (\<Sum>k = 0..<length (map2 (*) u v). map2 (*) u v ! k)"
    unfolding dot_def by (rule sum_list_sum_nth)
  also have "\<dots> = (\<Sum>k = 0..<length u. u ! k * v ! k)"
    using assms by (intro sum.cong) simp_all
  finally show ?thesis by (simp add: atLeast0LessThan)
qed

lemma dot_lm_logit_spec:
  "length x = length (we ! v) \<Longrightarrow> dot x (we ! v) = lm_logit_spec x we v"
  by (simp add: dot_sum_nth lm_logit_spec_def)

lemma softmax_xent_spec_ln:
  assumes "y < V"
  shows "softmax_xent_spec z V y = ln (\<Sum>v<V. exp (z v)) - z y"
proof -
  from assms have "{..<V} \<noteq> {}" by auto
  then have pos: "0 < (\<Sum>v<V. exp (z v))"
    by (intro sum_pos) simp_all
  have "ln (exp (z y) / (\<Sum>v<V. exp (z v))) = ln (exp (z y)) - ln (\<Sum>v<V. exp (z v))"
    using pos by (simp add: ln_div)
  then show ?thesis by (simp add: softmax_xent_spec_def)
qed

text \<open>
  Claim C4. For every batch of well-shaped inputs (sequences of \<open>nc \<ge> 1\<close> positions,
  hidden states and embedding rows of one width, token ids of the positions \<open>t \<ge> 1\<close>
  within the embedding table) the language-model loss of every sequence is the sum over
  the positions \<open>t \<ge> 1\<close> of the softmax cross-entropy between the logits at position
  \<open>t - 1\<close>, the hidden state times the transposed embedding table, and the token id at
  position \<open>t\<close>, weighted by the mask entry \<open>M[t]\<close>, over the sum of \<open>M[1:]\<close>. The
  right-hand side spells the matrix product and the cross-entropy out entry by entry;
  where the mask of a sequence sums to zero both sides are a quotient by zero.
\<close>

theorem lm_loss_masked_average:
  assumes nc: "1 \<le> nc"
    and lh: "length h = length X" and lm: "length M = length X"
    and hb: "\<And>b. b < length X \<Longrightarrow> length (h ! b) = nc"
    and xb: "\<And>b. b < length X \<Longrightarrow> length (X ! b) = nc"
    and mb: "\<And>b. b < length X \<Longrightarrow> length (M ! b) = nc"
    and emb: "\<And>b t e. b < length X \<Longrightarrow> t < nc \<Longrightarrow> e \<in> set we \<Longrightarrow> length (h ! b ! t) = length e"
    and tok: "\<And>b t. b < length X \<Longrightarrow> 1 \<le> t \<Longrightarrow> t < nc \<Longrightarrow>
                 0 \<le> fst (X ! b ! t) \<and> fst (X ! b ! t) < int (length we)"
  shows "\<exists>ls. model_lm_losses nc h we X M = Inr ls \<and> length ls = length X
           \<and> (\<forall>b<length X. ls ! b = lm_loss_spec nc (h ! b) we (X ! b) (M ! b))"
proof -
  let ?ls = "map2 (\<lambda>l m. sum_list (map2 (*) l (tl m)) / sum_list (tl m))
                  (map2 (seq_losses we) h X) M"
  have p: "model_lm_losses nc h we X M = Inr ?ls"
    using assms by (rule model_lm_losses_flat)
  have len: "length ?ls = length X" using lh lm by simp
  have "?ls ! b = lm_loss_spec nc (h ! b) we (X ! b) (M ! b)" if b: "b < length X" for b
  proof -
    let ?l = "seq_losses we (h ! b) (X ! b)"
    have ll: "length ?l = length (M ! b) - 1"
      using hb [OF b] xb [OF b] mb [OF b] by (simp add: seq_losses_def)
    have "?ls ! b = sum_list (map2 (*) ?l (tl (M ! b))) / sum_list (tl (M ! b))"
      using b lh lm by simp
    also have "sum_list (tl (M ! b)) = (\<Sum>t = 1..<nc. M ! b ! t)"
      using mb [OF b] by (simp add: sum_list_tl)
    also have "sum_list (map2 (*) ?l (tl (M ! b))) = (\<Sum>t = 1..<nc. ?l ! (t - 1) * M ! b ! t)"
      using sum_list_map2_tl [OF ll] mb [OF b] by simp
    also have "\<dots> = (\<Sum>t = 1..<nc. M ! b ! t *
                  softmax_xent_spec (lm_logit_spec (h ! b ! (t - 1)) we) (length we)
                    (nat (fst (X ! b ! t))))"
    proof (intro sum.cong refl)
      fix t assume "t \<in> {1..<nc}"
      then have t: "1 \<le> t" "t < nc" by simp_all
      let ?x = "h ! b ! (t - 1)"
      let ?y = "nat (fst (X ! b ! t))"
      from t have t1: "t - 1 < nc" by simp
      from tok [OF b t] have y: "?y < length we" by (auto simp: nat_less_iff)
      have lg: "dot ?x (we ! v) = lm_logit_spec ?x we v" if "v < length we" for v
        using emb [OF b t1, of "we ! v"] that by (intro dot_lm_logit_spec) simp
      have "?l ! (t - 1) = ln (\<Sum>v<length we. exp (dot ?x (we ! v))) - dot ?x (we ! ?y)"
        using seq_losses_nth [OF hb [OF b] xb [OF b] t] tok [OF b t] by simp
      also have "(\<Sum>v<length we. exp (dot ?x (we ! v)))
                 = (\<Sum>v<length we. exp (lm_logit_spec ?x we v))"
      proof (intro sum.cong refl)
        fix v assume "v \<in> {..<length we}"
        then have "v < length we" by simp
        then show "exp (dot ?x (we ! v)) = exp (lm_logit_spec ?x we v)"
          by (simp only: lg)
      qed
      also have "dot ?x (we ! ?y) = lm_logit_spec ?x we ?y"
        using y by (rule lg)
      also have "ln (\<Sum>v<length we. exp (lm_logit_spec ?x we v)) - lm_logit_spec ?x we ?y
                 = softmax_xent_spec (lm_logit_spec ?x we) (length we) ?y"
        using y by (rule softmax_xent_spec_ln [symmetric])
      finally show "?l ! (t - 1) * M ! b ! t = M ! b ! t *
                  softmax_xent_spec (lm_logit_spec ?x we) (length we) ?y"
        by (simp add: mult.commute)
    qed
    finally show ?thesis by (simp add: lm_loss_spec_def)
  qed
  with p len show ?thesis by blast
qed

theorem lm_loss_masked_average_witness:
  "(1::nat) \<le> 3
   \<and> length [[[0, ln 3], [ln 2, 0], [5, 7 :: real]]] = length [[(0 :: int, 5 :: int), (1, 6), (0, 7)]]
   \<and> model_lm_losses 3 [[[0, ln 3], [ln 2, 0], [5, 7]]] [[1, 0], [1, 1]]
         [[(0, 5), (1, 6), (0, 7)]] [[0, 1, 1]]
       = Inr [(ln 4 - ln 3 + (ln 4 - ln 2)) / 2]
   \<and> lm_loss_spec 3 [[0, ln 3], [ln 2, 0], [5, 7]] [[1, 0], [1, 1]] [(0, 5), (1, 6), (0, 7)]
         [0, 1, 1]
       = (ln 4 - ln 3 + (ln 4 - ln 2)) / 2
   \<and> lm_loss_spec 3 [[0, ln 3], [ln 2, 0], [5, 7]] [[1, 0], [1, 1]] [(0, 5), (1, 6), (0, 7)]
         [0, 1, 1]
       = (- ln (3 / 4) + - ln (2 / 4)) / 2"
proof -
  let ?h = "[[[0, ln 3], [ln 2, 0], [5, 7 :: real]]]"
  let ?we = "[[1, 0], [1, 1 :: real]]"
  let ?X = "[[(0 :: int, 5 :: int), (1, 6), (0, 7)]]"
  let ?M = "[[0, 1, 1 :: real]]"
  have code_val:
    "model_lm_losses 3 ?h ?we ?X ?M = Inr [(ln 4 - ln 3 + (ln 4 - ln 2)) / 2]"
    by (simp add: model_lm_losses_def matmul_transpose_b_def dot_def
          sparse_softmax_cross_entropy_def xent_def tf_reshape2_def masked_average_def
          upt_rec [of 0] upt_rec [of 1])
  have spec_val:
    "lm_loss_spec 3 [[0, ln 3], [ln 2, 0], [5, 7]] ?we [(0, 5), (1, 6), (0, 7)] [0, 1, 1]
       = (- ln (3 / 4) + - ln (2 / 4)) / 2"
    by (simp add: lm_loss_spec_def lm_logit_spec_def softmax_xent_spec_def numeral_3_eq_3
          lessThan_Suc sum.atLeast_Suc_lessThan numeral_2_eq_2)
  have a1: "(1::nat) \<le> 3" by simp
  have a2: "length ?h = length ?X" and a3: "length ?M = length ?X" by simp_all
  have a4: "\<And>b. b < length ?X \<Longrightarrow> length (?h ! b) = 3"
    and a5: "\<And>b. b < length ?X \<Longrightarrow> length (?X ! b) = 3"
    and a6: "\<And>b. b < length ?X \<Longrightarrow> length (?M ! b) = 3"
    by simp_all
  have a7: "\<And>b t e. b < length ?X \<Longrightarrow> t < 3 \<Longrightarrow> e \<in> set ?we \<Longrightarrow> length (?h ! b ! t) = length e"
    by (auto simp: nth_Cons')
  have a8: "\<And>b t. b < length ?X \<Longrightarrow> 1 \<le> t \<Longrightarrow> t < 3 \<Longrightarrow>
                 0 \<le> fst (?X ! b ! t) \<and> fst (?X ! b ! t) < int (length ?we)"
    by (auto simp: nth_Cons')
  from lm_loss_masked_average [of 3 ?h ?X ?M ?we, OF a1 a2 a3 a4 a5 a6 a7 a8]
  obtain ls where ls: "model_lm_losses 3 ?h ?we ?X ?M = Inr ls" "length ls = length ?X"
      "\<forall>b<length ?X. ls ! b = lm_loss_spec 3 (?h ! b) ?we (?X ! b) (?M ! b)"
    by blast
  from ls(3) have "ls ! 0 = lm_loss_spec 3 [[0, ln 3], [ln 2, 0], [5, 7]] ?we
                              [(0, 5), (1, 6), (0, 7)] [0, 1, 1]"
    by simp
  moreover from ls(1) code_val have "ls = [(ln 4 - ln 3 + (ln 4 - ln 2)) / 2]" by simp
  ultimately have sv: "lm_loss_spec 3 [[0, ln 3], [ln 2, 0], [5, 7]] ?we
                              [(0, 5), (1, 6), (0, 7)] [0, 1, 1]
                       = (ln 4 - ln 3 + (ln 4 - ln 2)) / 2"
    by simp
  show ?thesis
    by (intro conjI) (rule a1 a2 code_val sv spec_val)+
qed

subsection \<open>Construction of the attention sublayer and of a block\<close>

lemma bind_exn_simps [simp]:
  "bind_exn (Inr x) f = f x" "bind_exn (Inl e) f = Inl e"
  by (simp_all add: bind_exn_def)

lemma tf_reshape_flatten:
  assumes "0 < n" "prod_list x mod n = 0"
  shows "tf_reshape x [- 1, int n] = Inr [prod_list x div n, n]"
  using assms by (simp add: tf_reshape_def Let_def)

lemma tf_reshape_known:
  "tf_reshape x (map int ys) = (if prod_list x = prod_list ys then Inr ys else Inl ValueError)"
proof -
  have f1: "filter (\<lambda>d. d = - 1) (map int ys) = []"
    by (induction ys) auto
  have f2: "filter (\<lambda>d. d \<noteq> - 1) (map int ys) = map int ys"
    by (induction ys) auto
  have ex: "\<not> list_ex (\<lambda>d. d < - 1) (map int ys)"
    by (induction ys) auto
  show ?thesis
    by (simp add: tf_reshape_def Let_def f1 f2 ex comp_def)
qed

lemma tf_reshape_negative:
  "d < - 1 \<Longrightarrow> d \<in> set target \<Longrightarrow> tf_reshape x target = Inl ValueError"
  by (auto simp: tf_reshape_def Let_def list_ex_iff)

lemma tf_broadcast_same: "tf_broadcast x x = Inr x"
proof -
  have "broadcast_rev xs xs = Some xs" for xs :: "nat list"
    by (induction xs) (simp_all add: bdim_def)
  then show ?thesis by (simp add: tf_broadcast_def)
qed

lemma tf_broadcast_3: 
  "tf_broadcast [b, t, e] [e] = Inr [b, t, e]"
  "tf_broadcast [b, t, e] [b, t, 1] = Inr [b, t, e]"
  "tf_broadcast [b, t, e] [b, t, Suc 0] = Inr [b, t, e]"
  "tf_broadcast [m, e] [e] = Inr [m, e]"
  "tf_broadcast [b, h, t, t] [1, 1, t, t] = Inr [b, h, t, t]"
  "tf_broadcast [b, h, t, t] [Suc 0, Suc 0, t, t] = Inr [b, h, t, t]"
  by (simp_all add: tf_broadcast_def bdim_def)

lemma conv1d_3:
  assumes "0 < e" "0 < nf"
  shows "conv1d [b, t, e] nf = Inr [b, t, nf]"
proof -
  have 1: "tf_reshape [b, t, e] [- 1, int e] = Inr [b * t, e]"
    using tf_reshape_flatten [of e "[b, t, e]"] assms by simp
  have 2: "tf_reshape [Suc 0, e, nf] [- 1, int nf] = Inr [e, nf]"
    using tf_reshape_flatten [of nf "[Suc 0, e, nf]"] assms by simp
  have 3: "tf_matmul [b * t, e] [e, nf] = Inr [b * t, nf]"
    by (simp add: tf_matmul_def)
  have 4: "tf_reshape [b * t, nf] (map int [b, t, nf]) = Inr [b, t, nf]"
    by (simp only: tf_reshape_known) simp
  show ?thesis
    using 4 by (simp add: conv1d_def last_dim_def 1 2 3 tf_broadcast_3)
qed

lemma norm_3: "norm_shape [b, t, e] = Inr [b, t, e]"
  by (simp add: norm_shape_def last_dim_def tf_broadcast_3)

lemma dropout_ok: "(tr \<longrightarrow> p < 1) \<Longrightarrow> dropout x p tr = Inr x"
  by (simp add: dropout_def tf_dropout_def)

lemma split_heads_3:
  assumes "0 < nh" "int e mod nh = 0"
  shows "split_heads [b, t, e] nh False = Inr [b, nat nh, t, e div nat nh]"
    and "split_heads [b, t, e] nh True = Inr [b, nat nh, e div nat nh, t]"
proof -
  obtain h where h: "nh = int h" "0 < h" using assms(1) by (metis nat_0_less_mult_iff pos_int_cases zero_less_nat_eq mult_1)
  from assms(2) h have dv: "e mod h = 0" by (metis of_nat_mod of_nat_eq_0_iff)
  then have eq: "h * (e div h) = e" by auto
  have "map int [b, t] @ [nh, int e div nh] = map int [b, t, h, e div h]"
    using h by (simp add: zdiv_int)
  then have "tf_reshape [b, t, e] (map int [b, t] @ [nh, int e div nh])
             = Inr [b, t, h, e div h]"
    using eq by (simp only: tf_reshape_known) (simp add: mult.assoc)
  then have s: "split_states [b, t, e] (int h) = Inr [b, t, h, e div h]"
    using h by (simp add: split_states_def last_dim_def)
  show "split_heads [b, t, e] nh False = Inr [b, nat nh, t, e div nat nh]"
    and "split_heads [b, t, e] nh True = Inr [b, nat nh, e div nat nh, t]"
    using h by (simp_all add: split_heads_def s tf_transpose_def)
qed

lemma tf_split_3: "tf_split [b, t, e * 3] 3 2 = Inr [[b, t, e], [b, t, e], [b, t, e]]"
proof -
  have "[b, t, e * 3][2 := e * 3 div 3] = [b, t, e]"
    by (simp add: numeral_2_eq_2)
  moreover have "[b, t, e * 3] ! 2 = e * 3" by simp
  moreover have "replicate 3 [b, t, e] = [[b, t, e], [b, t, e], [b, t, e]]"
    by (simp add: numeral_3_eq_3)
  ultimately show ?thesis
    unfolding tf_split_def by simp
qed

lemma attn_core_4:
  assumes "tr \<longrightarrow> attn_pdrop ps < 1"
  shows "attn_core ps [b, h, t, d] [b, h, d, t] [b, h, t, d] tr sc = Inr [b, h, t, d]"
proof -
  have 1: "tf_matmul [b, h, t, d] [b, h, d, t] = Inr [b, h, t, t]"
    by (simp add: tf_matmul_def)
  have 2: "mask_attn_weights_shape [b, h, t, t] = Inr [b, h, t, t]"
    by (simp add: mask_attn_weights_shape_def last_dim_def tf_broadcast_3)
  have 3: "dropout [b, h, t, t] (attn_pdrop ps) tr = Inr [b, h, t, t]"
    using assms by (rule dropout_ok)
  have 4: "tf_matmul [b, h, t, t] [b, h, t, d] = Inr [b, h, t, d]"
    by (simp add: tf_matmul_def)
  show ?thesis
    by (simp add: attn_core_def 1 2 3 4 last_dim_def)
qed

lemma merge_heads_4: "merge_heads [b, h, t, d] = Inr [b, t, h * d]"
proof -
  have 1: "tf_transpose [b, h, t, d] [0, 2, Suc 0, 3] = Inr [b, t, h, d]"
    by (simp add: tf_transpose_def)
  have "tf_reshape [b, t, h, d] (map int [b, t, h * d]) = Inr [b, t, h * d]"
    by (simp only: tf_reshape_known) (simp add: mult.assoc)
  then have 2: "merge_states [b, t, h, d] = Inr [b, t, h * d]"
    by (simp add: merge_states_def)
  show ?thesis by (simp add: merge_heads_def 1 2)
qed

lemma attn_ok:
  assumes e: "0 < e" and nh: "0 < nh" "int e mod nh = 0"
    and p: "tr \<longrightarrow> attn_pdrop ps < 1 \<and> resid_pdrop ps < 1"
  shows "attn ps [b, t, e] e nh tr sc = Inr [b, t, e]"
proof -
  let ?h = "nat nh" and ?d = "e div nat nh"
  have hd: "?h * ?d = e"
  proof -
    from nh have "int e mod int (nat nh) = 0" by simp
    then have "e mod nat nh = 0" by (metis of_nat_mod of_nat_eq_0_iff)
    then show ?thesis by auto
  qed
  have 1: "conv1d [b, t, e] (e * 3) = Inr [b, t, e * 3]"
    using e by (intro conv1d_3) simp_all
  have 2: "conv1d [b, t, e] e = Inr [b, t, e]"
    using e by (intro conv1d_3)
  have 3: "attn_core ps [b, ?h, t, ?d] [b, ?h, ?d, t] [b, ?h, t, ?d] tr sc = Inr [b, ?h, t, ?d]"
    using p by (intro attn_core_4) simp
  have 4: "merge_heads [b, ?h, t, ?d] = Inr [b, t, e]"
    using merge_heads_4 [of b ?h t ?d] hd by simp
  have 5: "dropout [b, t, e] (resid_pdrop ps) tr = Inr [b, t, e]"
    using p by (intro dropout_ok) simp
  show ?thesis
    using nh by (simp add: attn_def 1 tf_split_3 split_heads_3 [OF nh] 3 4 2 5)
qed

lemma attn_fails:
  "nh = 0 \<Longrightarrow> attn ps x n nh tr sc = Inl ZeroDivisionError"
  "nh \<noteq> 0 \<Longrightarrow> int n mod nh \<noteq> 0 \<Longrightarrow> attn ps x n nh tr sc = Inl AssertionError"
  by (simp_all add: attn_def)

lemma mlp_ok:
  assumes e: "0 < e" and a: "act_fns (afn ps) \<noteq> None" and p: "tr \<longrightarrow> resid_pdrop ps < 1"
  shows "mlp ps [b, t, e] (e * 4) tr = Inr [b, t, e]"
proof -
  have 1: "conv1d [b, t, e] (e * 4) = Inr [b, t, e * 4]"
    using e by (intro conv1d_3) simp_all
  have 2: "conv1d [b, t, e * 4] e = Inr [b, t, e]"
    using e by (intro conv1d_3) simp_all
  have 3: "dropout [b, t, e] (resid_pdrop ps) tr = Inr [b, t, e]"
    using p by (rule dropout_ok)
  from a obtain f where "act_fns (afn ps) = Some f" by auto
  then show ?thesis by (simp add: mlp_def last_dim_def 1 2 3)
qed

lemma mlp_unknown_afn:
  "act_fns (afn ps) = None \<Longrightarrow> x \<noteq> [] \<Longrightarrow> mlp ps x n tr = Inl KeyError"
  by (simp add: mlp_def last_dim_def)

lemma block_ok:
  assumes e: "0 < e" and nh: "0 < n_head ps" "int e mod n_head ps = 0"
    and a: "act_fns (afn ps) \<noteq> None"
    and p: "tr \<longrightarrow> attn_pdrop ps < 1 \<and> resid_pdrop ps < 1"
  shows "block ps [b, t, e] tr sc = Inr [b, t, e]"
proof -
  have 1: "attn ps [b, t, e] e (n_head ps) tr sc = Inr [b, t, e]"
    using e nh p by (rule attn_ok)
  have 2: "mlp ps [b, t, e] (e * 4) tr = Inr [b, t, e]"
    using e a p by (intro mlp_ok) simp_all
  show ?thesis
    by (simp add: block_def last_dim_def 1 2 tf_broadcast_same norm_3)
qed

lemma block_fails:
  assumes "int e mod n_head ps \<noteq> 0"
  shows "\<exists>err. block ps [b, t, e] tr sc = Inl err"
proof (cases "n_head ps = 0")
  case True
  then show ?thesis by (simp add: block_def last_dim_def attn_fails(1))
next
  case False
  with assms show ?thesis by (simp add: block_def last_dim_def attn_fails(2))
qed

lemma block_unknown_afn:
  assumes e: "0 < e" and nh: "0 < n_head ps" "int e mod n_head ps = 0"
    and a: "act_fns (afn ps) = None"
    and p: "tr \<longrightarrow> attn_pdrop ps < 1 \<and> resid_pdrop ps < 1"
  shows "block ps [b, t, e] tr sc = Inl KeyError"
proof -
  have 1: "attn ps [b, t, e] e (n_head ps) tr sc = Inr [b, t, e]"
    using e nh p by (rule attn_ok)
  have 2: "mlp ps [b, t, e] (e * 4) tr = Inl KeyError"
    using a by (intro mlp_unknown_afn) simp_all
  show ?thesis
    by (simp add: block_def last_dim_def 1 2 tf_broadcast_same norm_3)
qed

lemma split_states_negative:
  assumes "0 < e" "nh < 0"
  shows "split_states [b, t, e] nh = Inl ValueError"
proof -
  let ?target = "map int (butlast [b, t, e]) @ [nh, int e div nh]"
  have "tf_reshape [b, t, e] ?target = Inl ValueError"
  proof (cases "nh < - 1")
    case True
    then show ?thesis by (intro tf_reshape_negative [where d = nh]) simp_all
  next
    case False
    with assms have nh: "nh = - 1" by simp
    show ?thesis
    proof (cases "e = 1")
      case True
      then show ?thesis by (simp add: nh tf_reshape_def Let_def)
    next
      case False
      with assms have "- int e < - 1" by simp
      then show ?thesis
        by (intro tf_reshape_negative [where d = "- int e"]) (simp_all add: nh)
    qed
  qed
  then show ?thesis using assms by (simp add: split_states_def last_dim_def)
qed

lemma attn_negative_heads:
  assumes "0 < e" "nh < 0"
  shows "\<exists>err. attn ps [b, t, e] e nh tr sc = Inl err"
proof (cases "int e mod nh = 0")
  case False
  with assms show ?thesis by (simp add: attn_fails(2))
next
  case True
  have 1: "conv1d [b, t, e] (e * 3) = Inr [b, t, e * 3]"
    using assms by (intro conv1d_3) simp_all
  have 2: "split_heads [b, t, e] nh False = Inl ValueError"
    by (simp add: split_heads_def split_states_negative [OF assms])
  have "attn ps [b, t, e] e nh tr sc = Inl ValueError"
    using assms True by (simp add: attn_def 1 tf_split_3 2)
  then show ?thesis by blast
qed

text \<open>
  Claim C6 (as amended). For an input of static shape \<open>[batch, n_ctx, n_embd]\<close> with
  \<open>n_embd > 0\<close>, and dropout probabilities below 1 when training: constructing the
  attention sublayer raises if and only if the number of heads is negative or the width
  is not divisible by it (an AssertionError, a ZeroDivisionError for 0 heads, a
  ValueError of the reshape for a negative number of heads); with a positive number of
  heads that divides the width it succeeds and keeps the shape. Constructing a block
  raises when the width is not divisible by the configured number of heads; when it is
  divisible by a positive number of heads, the block keeps the shape of its input if the
  configured activation is one of relu, swish and gelu, and raises KeyError otherwise.
\<close>

theorem head_divisibility:
  assumes "0 < e" and "tr \<longrightarrow> attn_pdrop ps < 1 \<and> resid_pdrop ps < 1"
  shows "((\<exists>err. attn ps [b, t, e] e nh tr sc = Inl err) \<longleftrightarrow> nh < 0 \<or> int e mod nh \<noteq> 0)
       \<and> (0 < nh \<and> int e mod nh = 0 \<longrightarrow> attn ps [b, t, e] e nh tr sc = Inr [b, t, e])
       \<and> (int e mod n_head ps \<noteq> 0 \<longrightarrow> (\<exists>err. block ps [b, t, e] tr sc = Inl err))
       \<and> (0 < n_head ps \<and> int e mod n_head ps = 0 \<longrightarrow>
            block ps [b, t, e] tr sc
              = (if act_fns (afn ps) = None then Inl KeyError else Inr [b, t, e]))"
proof (intro conjI impI)
  show "(\<exists>err. attn ps [b, t, e] e nh tr sc = Inl err) \<longleftrightarrow> nh < 0 \<or> int e mod nh \<noteq> 0"
  proof (cases "nh < 0")
    case True
    with attn_negative_heads [OF assms(1) True] show ?thesis by simp
  next
    case nneg: False
    show ?thesis
    proof (cases "int e mod nh = 0")
      case True
      with assms(1) nneg have "0 < nh" by (cases "nh = 0") auto
      from attn_ok [OF assms(1) this True assms(2)] True nneg show ?thesis by simp
    next
      case False
      then show ?thesis by (cases "nh = 0") (simp_all add: attn_fails)
    qed
  qed
next
  assume "0 < nh \<and> int e mod nh = 0"
  then show "attn ps [b, t, e] e nh tr sc = Inr [b, t, e]"
    using assms by (intro attn_ok) simp_all
next
  assume "int e mod n_head ps \<noteq> 0"
  then show "\<exists>err. block ps [b, t, e] tr sc = Inl err" by (rule block_fails)
next
  assume h: "0 < n_head ps \<and> int e mod n_head ps = 0"
  show "block ps [b, t, e] tr sc
              = (if act_fns (afn ps) = None then Inl KeyError else Inr [b, t, e])"
  proof (cases "act_fns (afn ps) = None")
    case True
    with block_unknown_afn [OF assms(1) _ _ True assms(2)] h show ?thesis by simp
  next
    case False
    with block_ok [OF assms(1) _ _ False assms(2)] h show ?thesis by simp
  qed
qed

theorem head_divisibility_witness:
  "(0::nat) < 4 \<and> (1 / 10 :: real) < 1 \<and> (0::int) < 2 \<and> int 4 mod 2 = 0
   \<and> attn \<lparr>n_head = 2, afn = ''gelu'', attn_pdrop = 1 / 10, resid_pdrop = 1 / 10\<rparr>
         [2, 8, 4] 4 2 True True = Inr [2, 8, 4]
   \<and> block \<lparr>n_head = 2, afn = ''gelu'', attn_pdrop = 1 / 10, resid_pdrop = 1 / 10\<rparr>
         [2, 8, 4] True True = Inr [2, 8, 4]
   \<and> int 4 mod 3 \<noteq> 0
   \<and> attn \<lparr>n_head = 2, afn = ''gelu'', attn_pdrop = 1 / 10, resid_pdrop = 1 / 10\<rparr>
         [2, 8, 4] 4 3 True True = Inl AssertionError"
proof -
  let ?ps = "\<lparr>n_head = 2, afn = ''gelu'', attn_pdrop = 1 / 10, resid_pdrop = 1 / 10 :: real\<rparr>"
  have h1: "(0::nat) < 4" by simp
  have h2: "True \<longrightarrow> attn_pdrop ?ps < 1 \<and> resid_pdrop ?ps < 1" by simp
  have h3: "(0::int) < 2 \<and> int 4 mod 2 = 0" by simp
  have h4: "0 < n_head ?ps \<and> int 4 mod n_head ?ps = 0" by simp
  have h5: "act_fns (afn ?ps) \<noteq> None" by (simp add: act_fns_def)
  note t = head_divisibility [where e = 4 and tr = True and ps = ?ps and nh = 2 and b = 2
                                and t = 8 and sc = True, OF h1 h2]
  from t h3 have a: "attn ?ps [2, 8, 4] 4 2 True True = Inr [2, 8, 4]" by blast
  from t h4 have "block ?ps [2, 8, 4] True True
                    = (if act_fns (afn ?ps) = None then Inl KeyError else Inr [2, 8, 4])"
    by blast
  with h5 have b: "block ?ps [2, 8, 4] True True = Inr [2, 8, 4]" by (simp only: if_False)
  have c: "attn ?ps [2, 8, 4] 4 3 True True = Inl AssertionError"
    by (simp add: attn_def)
  have d: "int 4 mod 3 \<noteq> 0" by simp
  have e: "(1 / 10 :: real) < 1" by simp
  from h1 e h3 a b c d show ?thesis by (intro conjI) blast+
qed

text \<open>
  The claim as stated, for every configuration, fails: with a width of 4 divisible by 2
  heads and the unknown activation name tanh, the construction of the block raises
  KeyError; and with \<open>-2\<close> heads the assertion passes (\<open>4 % -2 == 0\<close>) and the reshape of
  \<^verbatim>\<open>split_states\<close> raises.
\<close>

theorem head_divisibility_counterexample:
  "int 4 mod 2 = 0
   \<and> block \<lparr>n_head = 2, afn = ''tanh'', attn_pdrop = 1 / 10, resid_pdrop = 1 / 10\<rparr>
         [2, 8, 4] False True = Inl KeyError
   \<and> int 4 mod (- 2) = 0
   \<and> attn \<lparr>n_head = - 2, afn = ''gelu'', attn_pdrop = 1 / 10, resid_pdrop = 1 / 10\<rparr>
         [2, 8, 4] 4 (- 2) False True = Inl ValueError"
proof -
  let ?ps = "\<lparr>n_head = 2, afn = ''tanh'', attn_pdrop = 1 / 10, resid_pdrop = 1 / 10 :: real\<rparr>"
  let ?qs = "\<lparr>n_head = - 2, afn = ''gelu'', attn_pdrop = 1 / 10, resid_pdrop = 1 / 10 :: real\<rparr>"
  have b: "block ?ps [2, 8, 4] False True = Inl KeyError"
    by (rule block_unknown_afn) (simp_all add: act_fns_def)
  have c: "conv1d [2, 8, 4] (4 * 3) = Inr [2, 8, 4 * 3]"
    by (intro conv1d_3) simp_all
  have s: "split_heads [2, 8, 4] (- 2) False = Inl ValueError"
    by (simp add: split_heads_def split_states_negative)
  have q: "attn ?qs [2, 8, 4] 4 (- 2) False True = Inl ValueError"
    unfolding attn_def using tf_split_3 [of 2 8 4] c by (simp add: s)
  have m1: "int 4 mod 2 = 0" and m2: "int 4 mod (- 2) = 0" by simp_all
  from m1 b m2 q show ?thesis by (intro conjI)
qed

end
